theory Spec2Isabelle
  imports Complex_Main "HOL-Library.Char_ord" "HOL-Library.List_Lexorder"
    "HOL-Library.Sublist" "HOL-Library.Multiset"
begin

section \<open>Strings of the indexer\<close>

text \<open>
  The program manipulates Python \<open>str\<close> values.  A text is modelled as a \<open>string\<close>, one
  \<open>char\<close> per character of the text (code points 0 to 255), and \<open>length\<close> is Python's
  \<open>len\<close>.  The helpers below are the library operations the source calls
  (\<open>str.strip\<close>, \<open>str.lower\<close>, \<open>str.join\<close>, \<open>str()\<close> of an index, slicing).
\<close>

definition newline :: char where
  "newline = CHR 0x0A"

text \<open>\<open>str.isspace\<close> on one character: the whitespace characters below code point 256.\<close>

definition is_space :: "char \<Rightarrow> bool" where
  "is_space c = (c \<in> set [CHR 0x09, CHR 0x0A, CHR 0x0B, CHR 0x0C, CHR 0x0D,
                            CHR 0x1C, CHR 0x1D, CHR 0x1E, CHR 0x1F, CHR 0x20,
                            CHR 0x85, CHR 0xA0])"

text \<open>\<open>part.strip()\<close>: leading and trailing whitespace removed.\<close>

definition strip :: "string \<Rightarrow> string" where
  "strip s = rev (dropWhile is_space (rev (dropWhile is_space s)))"

text \<open>\<open>str.lower\<close> on one character and on a text.\<close>

definition lower_char :: "char \<Rightarrow> char" where
  "lower_char c =
     (let n = (of_char c :: nat)
      in if (65 \<le> n \<and> n \<le> 90) \<or> (192 \<le> n \<and> n \<le> 222 \<and> n \<noteq> 215)
         then char_of (n + 32) else c)"

definition lower :: "string \<Rightarrow> string" where
  "lower s = map lower_char s"

section \<open>The chunk splitter\<close>

text \<open>
  \<open>re.compile(r'(?=^(def |class ))', re.MULTILINE)\<close>: the pattern matches the empty text
  at the start of a line (start of the text, or right after a newline) that goes on with
  \<open>def \<close> or \<open>class \<close>; its one group captures that keyword.
\<close>

definition match_keyword :: "string \<Rightarrow> string option" where
  "match_keyword s =
     (if take 4 s = ''def '' then Some ''def ''
      else if take 6 s = ''class '' then Some ''class ''
      else None)"

text \<open>
  \<open>pattern.split(file_content)\<close>.  The text is scanned from left to right; \<open>bol\<close> says
  whether the position is at the start of a line and \<open>seg\<close> is the text since the last
  match.  At each match \<open>split\<close> returns the segment before the match and then the text of
  the pattern's group; after the last match it returns the rest, also when it is empty.
  (This is \<open>re.split\<close> as of Python 3.7, which also splits at an empty match.)
\<close>

fun pattern_split :: "bool \<Rightarrow> string \<Rightarrow> string \<Rightarrow> string list" where
  "pattern_split bol seg [] = [seg]"
| "pattern_split bol seg (c # cs) =
     (case (if bol then match_keyword (c # cs) else None) of
        Some kw \<Rightarrow> seg # kw # pattern_split (c = newline) [c] cs
      | None \<Rightarrow> pattern_split (c = newline) (seg @ [c]) cs)"

datatype error = ValueError | RecursionError

text \<open>
  \<open>for i in range(0, len(part), max_chunk_length): chunks.append(part[i:i + max_chunk_length])\<close>
  for a positive step: consecutive windows of the text.
\<close>

fun windows :: "nat \<Rightarrow> string \<Rightarrow> string list" where
  "windows n s =
     (if n = 0 \<or> s = [] then [] else take n s # windows n (drop n s))"

declare windows.simps [simp del]

text \<open>
  The same loop for any integer step: \<open>range\<close> raises \<open>ValueError\<close> for step 0 and is
  empty for a negative step.
\<close>

definition fixed_size_chunks :: "string \<Rightarrow> int \<Rightarrow> error + string list" where
  "fixed_size_chunks part max_chunk_length =
     (if max_chunk_length = 0 then Inl ValueError
      else if max_chunk_length < 0 then Inr []
      else Inr (windows (nat max_chunk_length) part))"

text \<open>The body of the loop over \<open>parts\<close>, appending to \<open>chunks\<close>.\<close>

fun split_parts :: "string list \<Rightarrow> int \<Rightarrow> string list \<Rightarrow> error + string list" where
  "split_parts [] max_chunk_length chunks = Inr chunks"
| "split_parts (part # parts) max_chunk_length chunks =
     (let part = strip part
      in if part \<noteq> [] then
           (if int (length part) > max_chunk_length then
              (case fixed_size_chunks part max_chunk_length of
                 Inl e \<Rightarrow> Inl e
               | Inr ws \<Rightarrow> split_parts parts max_chunk_length (chunks @ ws))
            else split_parts parts max_chunk_length (chunks @ [part]))
         else split_parts parts max_chunk_length chunks)"

definition split_into_logical_chunks :: "string \<Rightarrow> string \<Rightarrow> int \<Rightarrow> error + string list" where
  "split_into_logical_chunks file_content file_extension max_chunk_length =
     (if lower file_extension = ''.py'' then
        split_parts (pattern_split True [] file_content) max_chunk_length []
      else
        (if int (length file_content) > max_chunk_length then
           fixed_size_chunks file_content max_chunk_length
         else Inr [file_content]))"

section \<open>Library operations on paths and numbers\<close>

text \<open>\<open>p.rfind(c)\<close>: the index of the last occurrence of a character, or \<open>-1\<close>.\<close>

definition rfind :: "string \<Rightarrow> char \<Rightarrow> int" where
  "rfind p c =
     (if c \<in> set p
      then int (length p) - 1 - int (length (takeWhile (\<lambda>x. x \<noteq> c) (rev p)))
      else - 1)"

text \<open>\<open>os.path.basename\<close> (POSIX): the text after the last slash.\<close>

definition basename :: "string \<Rightarrow> string" where
  "basename p = drop (nat (rfind p CHR ''/'' + 1)) p"

text \<open>\<open>os.path.join\<close> (POSIX) of two components.\<close>

definition join :: "string \<Rightarrow> string \<Rightarrow> string" where
  "join a b =
     (if take 1 b = ''/'' then b
      else if a = [] \<or> (a \<noteq> [] \<and> last a = CHR ''/'') then a @ b
      else a @ ''/'' @ b)"

text \<open>
  \<open>os.path.splitext\<close> (POSIX): the extension starts at the last dot of the last path
  component, unless that component has only dots before it.
\<close>

definition splitext :: "string \<Rightarrow> string \<times> string" where
  "splitext p =
     (let sepIndex = rfind p CHR ''/'';
          dotIndex = rfind p CHR ''.''
      in if dotIndex > sepIndex \<and>
            list_ex (\<lambda>c. c \<noteq> CHR ''.'')
              (take (nat (dotIndex - (sepIndex + 1))) (drop (nat (sepIndex + 1)) p))
         then (take (nat dotIndex) p, drop (nat dotIndex) p)
         else (p, []))"

text \<open>\<open>str(n)\<close> for a natural number, as the f-string prints \<open>idx + 1\<close>.\<close>

fun str_nat :: "nat \<Rightarrow> string" where
  "str_nat n =
     (if n < 10 then [char_of (48 + n)]
      else str_nat (n div 10) @ [char_of (48 + n mod 10)])"

declare str_nat.simps [simp del]

text \<open>\<open>sep.join(items)\<close>.\<close>

fun str_join :: "string \<Rightarrow> string list \<Rightarrow> string" where
  "str_join sep [] = []"
| "str_join sep [x] = x"
| "str_join sep (x # y # ys) = x @ sep @ str_join sep (y # ys)"

section \<open>The summarization collaborator\<close>

record llm_request =
  prompt :: string
  system_message :: string
  temperature :: real
  max_tokens :: int

text \<open>
  \<open>llm_call\<close> as the program defines it: a stub that answers with the first 75 characters
  of the prompt, newlines replaced by spaces.
\<close>

definition llm_call :: "llm_request \<Rightarrow> string" where
  "llm_call r =
     ''LLM_Summary (truncated): ''
       @ map (\<lambda>c. if c = newline then CHR '' '' else c) (take 75 (prompt r))
       @ ''...''"

section \<open>The file summarizer\<close>

text \<open>
  The file system as the program queries it.  \<open>read_text\<close> is \<open>open(path, 'r',
  encoding='utf-8').read()\<close> and \<open>listdir\<close> is \<open>os.listdir\<close>; \<open>Inl e\<close> is an exception
  whose text is \<open>e\<close>.
\<close>

record filesystem =
  read_text :: "string \<Rightarrow> string + string"
  listdir :: "string \<Rightarrow> string + string list"
  isdir :: "string \<Rightarrow> bool"
  isfile :: "string \<Rightarrow> bool"

definition DIRECT_SUMMARY_THRESHOLD :: nat where
  "DIRECT_SUMMARY_THRESHOLD = 10000"

definition assistant_message :: string where
  "assistant_message = ''You are a code summarization assistant.''"

definition direct_request :: "string \<Rightarrow> llm_request" where
  "direct_request file_content =
     \<lparr>prompt = ''Please provide a concise summary of the following code:''
                 @ [newline, newline] @ file_content,
      system_message = assistant_message, temperature = 0.5, max_tokens = 150\<rparr>"

definition chunk_request :: "nat \<Rightarrow> string \<Rightarrow> llm_request" where
  "chunk_request idx chunk =
     \<lparr>prompt = ''Please provide a brief summary of the following code chunk (part ''
                 @ str_nat (idx + 1) @ ''):'' @ [newline, newline] @ chunk,
      system_message = assistant_message, temperature = 0.5, max_tokens = 150\<rparr>"

definition synthesis_request :: "string list \<Rightarrow> llm_request" where
  "synthesis_request chunk_summaries =
     \<lparr>prompt = ''Please synthesize the following chunk summaries into one overall summary for the entire file:''
                 @ [newline, newline] @ str_join [newline] chunk_summaries,
      system_message = assistant_message, temperature = 0.5, max_tokens = 200\<rparr>"

text \<open>
  The loop \<open>for idx, chunk in enumerate(chunks)\<close>.  The collaborator is the parameter
  \<open>llm\<close> (the program binds it to \<open>llm_call\<close>); every call made is recorded, in order,
  in the first component of the result.
\<close>

fun summarize_chunks ::
  "(llm_request \<Rightarrow> string) \<Rightarrow> nat \<Rightarrow> string list \<Rightarrow> llm_request list \<times> string list
     \<Rightarrow> llm_request list \<times> string list" where
  "summarize_chunks llm idx [] (calls, chunk_summaries) = (calls, chunk_summaries)"
| "summarize_chunks llm idx (chunk # chunks) (calls, chunk_summaries) =
     (let request = chunk_request idx chunk;
          chunk_summary = llm request
      in summarize_chunks llm (idx + 1) chunks
           (calls @ [request], chunk_summaries @ [chunk_summary]))"

definition summarize_file ::
  "(llm_request \<Rightarrow> string) \<Rightarrow> filesystem \<Rightarrow> string \<Rightarrow> error + (llm_request list \<times> string)" where
  "summarize_file llm fs file_path =
     (case read_text fs file_path of
        Inl e \<Rightarrow> Inr ([], ''Error reading file: '' @ e)
      | Inr file_content \<Rightarrow>
          if length file_content \<le> DIRECT_SUMMARY_THRESHOLD then
            (let request = direct_request file_content
             in Inr ([request], llm request))
          else
            (let ext = snd (splitext file_path)
             in case split_into_logical_chunks file_content ext (int DIRECT_SUMMARY_THRESHOLD) of
                  Inl err \<Rightarrow> Inl err
                | Inr chunks \<Rightarrow>
                    (let (calls, chunk_summaries) = summarize_chunks llm 0 chunks ([], []);
                         request = synthesis_request chunk_summaries
                     in Inr (calls @ [request], llm request))))"

section \<open>The directory walker\<close>

text \<open>
  \<open>process_directory\<close> calls itself for each subdirectory.  The first number is the
  recursion depth still available: the interpreter bounds the depth of recursion and
  raises \<open>RecursionError\<close> beyond it, which nothing in the walker catches.
  \<open>process_entries\<close> is the loop \<open>for entry in entries\<close>, with the calls made and the
  lines collected so far.
\<close>

fun process_directory ::
  "(llm_request \<Rightarrow> string) \<Rightarrow> filesystem \<Rightarrow> nat \<Rightarrow> string \<Rightarrow> nat
     \<Rightarrow> error + (llm_request list \<times> string list)"
and process_entries ::
  "(llm_request \<Rightarrow> string) \<Rightarrow> filesystem \<Rightarrow> nat \<Rightarrow> string \<Rightarrow> nat \<Rightarrow> string list
     \<Rightarrow> llm_request list \<times> string list \<Rightarrow> error + (llm_request list \<times> string list)"
where
  "process_directory llm fs 0 directory indent = Inl RecursionError"
| "process_directory llm fs (Suc depth) directory indent =
     (let indent_str = concat (replicate indent ''    '');
          dir_name = (if basename directory \<noteq> [] then basename directory else directory);
          index_lines = [indent_str @ ''Directory: '' @ dir_name]
      in case listdir fs directory of
           Inl e \<Rightarrow> Inr ([], index_lines @ [indent_str @ ''    Error reading directory: '' @ e])
         | Inr names \<Rightarrow>
             process_entries llm fs depth directory indent (sort names) ([], index_lines))"
| "process_entries llm fs depth directory indent [] acc = Inr acc"
| "process_entries llm fs depth directory indent (entry # entries) (calls, index_lines) =
     (let indent_str = concat (replicate indent ''    '');
          path = join directory entry
      in if isdir fs path then
           (case process_directory llm fs depth path (indent + 1) of
              Inl err \<Rightarrow> Inl err
            | Inr (cs, sub_lines) \<Rightarrow>
                process_entries llm fs depth directory indent entries
                  (calls @ cs, index_lines @ sub_lines))
         else if isfile fs path then
           (case summarize_file llm fs path of
              Inl err \<Rightarrow> Inl err
            | Inr (cs, file_summary) \<Rightarrow>
                process_entries llm fs depth directory indent entries
                  (calls @ cs,
                   index_lines @ [indent_str @ ''    File: '' @ entry,
                                  indent_str @ ''        Summary: '' @ file_summary]))
         else process_entries llm fs depth directory indent entries (calls, index_lines))"

text \<open>\<open>build_library_index\<close>: the lines of the walk from the root, joined by newlines.\<close>

definition build_library_index ::
  "(llm_request \<Rightarrow> string) \<Rightarrow> filesystem \<Rightarrow> nat \<Rightarrow> string \<Rightarrow> error + (llm_request list \<times> string)" where
  "build_library_index llm fs depth root_directory =
     (case process_directory llm fs depth root_directory 0 of
        Inl err \<Rightarrow> Inl err
      | Inr (calls, index_lines) \<Rightarrow> Inr (calls, str_join [newline] index_lines))"

section \<open>The boundary split as the specification words it\<close>

text \<open>
  These definitions follow the specification, not the program: a boundary is the start
  of a line that begins with \<open>def \<close> or \<open>class \<close>; the content is cut at the start of
  each boundary, so that the keyword begins a new segment and what precedes it stays with
  the previous one; each segment is trimmed and the empty ones are dropped.
\<close>

definition is_boundary :: "string \<Rightarrow> nat \<Rightarrow> bool" where
  "is_boundary content p =
     ((p = 0 \<or> content ! (p - 1) = newline)
      \<and> (take 4 (drop p content) = ''def '' \<or> take 6 (drop p content) = ''class ''))"

definition boundaries :: "string \<Rightarrow> nat list" where
  "boundaries content = filter (is_boundary content) [0 ..< length content]"

text \<open>The segments of \<open>content\<close> from \<open>start\<close> on, cut at the given positions.\<close>

fun cut_at :: "nat list \<Rightarrow> nat \<Rightarrow> string \<Rightarrow> string list" where
  "cut_at [] start content = [drop start content]"
| "cut_at (p # ps) start content =
     take (p - start) (drop start content) # cut_at ps p content"

definition boundary_segments :: "string \<Rightarrow> string list" where
  "boundary_segments content = cut_at (boundaries content) 0 content"

definition boundary_chunks :: "string \<Rightarrow> string list" where
  "boundary_chunks content = filter (\<lambda>s. s \<noteq> []) (map strip (boundary_segments content))"

text \<open>Text with its whitespace removed, to compare texts up to whitespace.\<close>

definition without_whitespace :: "string \<Rightarrow> string" where
  "without_whitespace s = filter (\<lambda>c. \<not> is_space c) s"

section \<open>One iteration of the walker's loop\<close>

text \<open>
  What the body of \<open>for entry in entries\<close> contributes for one entry: the calls made and
  the lines appended.  It is not a function of the program; \<open>process_entries_Cons\<close>
  below shows that the loop is this body, entry after entry.
\<close>

definition entry_result ::
  "(llm_request \<Rightarrow> string) \<Rightarrow> filesystem \<Rightarrow> nat \<Rightarrow> string \<Rightarrow> nat \<Rightarrow> string
     \<Rightarrow> error + (llm_request list \<times> string list)" where
  "entry_result llm fs depth directory indent entry =
     (let indent_str = concat (replicate indent ''    '');
          path = join directory entry
      in if isdir fs path then process_directory llm fs depth path (indent + 1)
         else if isfile fs path then
           (case summarize_file llm fs path of
              Inl err \<Rightarrow> Inl err
            | Inr (cs, file_summary) \<Rightarrow>
                Inr (cs, [indent_str @ ''    File: '' @ entry,
                          indent_str @ ''        Summary: '' @ file_summary]))
         else Inr ([], []))"

section \<open>What the pattern's split returns, in terms of the boundaries\<close>

text \<open>
  The keyword found at a boundary, and the list that alternates segments and keywords;
  \<open>pattern_split_boundaries\<close> below states the parts of \<open>pattern_split\<close> with them.
\<close>

definition keyword_at :: "string \<Rightarrow> nat \<Rightarrow> string" where
  "keyword_at content p = (if take 4 (drop p content) = ''def '' then ''def '' else ''class '')"

fun weave :: "string list \<Rightarrow> string list \<Rightarrow> string list" where
  "weave (s # ss) (k # ks) = s # k # weave ss ks"
| "weave ss ks = ss"

text \<open>The chunks that one part of the split gives: none, itself trimmed, or its windows.\<close>

definition chunk_pieces :: "int \<Rightarrow> string \<Rightarrow> string list" where
  "chunk_pieces max_chunk_length part =
     (if strip part = [] then []
      else if int (length (strip part)) > max_chunk_length
           then windows (nat max_chunk_length) (strip part)
           else [strip part])"

section \<open>Concrete files and trees\<close>

text \<open>Inputs on which the theorems below are instantiated.\<close>

definition big_content :: string where
  "big_content = replicate 10001 CHR ''a''"

definition big_fs :: filesystem where
  "big_fs =
     \<lparr>read_text = (\<lambda>p. if p = ''big.txt'' then Inr big_content
                        else Inl ''[Errno 2] No such file or directory''),
      listdir = (\<lambda>p. Inl ''[Errno 20] Not a directory''),
      isdir = (\<lambda>p. False),
      isfile = (\<lambda>p. p = ''big.txt'')\<rparr>"

definition small_fs :: filesystem where
  "small_fs =
     \<lparr>read_text = (\<lambda>p. if p = ''proj/a.py'' then Inr ''x = 1''
                        else Inl ''[Errno 13] Permission denied''),
      listdir = (\<lambda>p. Inl ''[Errno 20] Not a directory''),
      isdir = (\<lambda>p. False),
      isfile = (\<lambda>p. p = ''proj/a.py'')\<rparr>"

definition demo_fs :: filesystem where
  "demo_fs =
     \<lparr>read_text = (\<lambda>p. if p = ''proj/a.py'' then Inr ''x = 1''
                        else if p = ''proj/lib/b.txt'' then Inr ''hello''
                        else Inl ''invalid start byte''),
      listdir = (\<lambda>p. if p = ''proj'' \<or> p = ''proj/'' then Inr [''lib'', ''a.py'', ''sock'', ''locked'']
                      else if p = ''proj/lib'' then Inr [''c.bin'', ''b.txt'']
                      else Inl ''[Errno 13] Permission denied''),
      isdir = (\<lambda>p. p = ''proj'' \<or> p = ''proj/'' \<or> p = ''proj/lib'' \<or> p = ''proj/locked''),
      isfile = (\<lambda>p. p = ''proj/a.py'' \<or> p = ''proj/lib/b.txt'' \<or> p = ''proj/lib/c.bin'')\<rparr>"

text \<open>The same tree, enumerated by the file system in another order.\<close>

definition demo_fs_reordered :: filesystem where
  "demo_fs_reordered =
     demo_fs\<lparr>listdir :=
       (\<lambda>p. if p = ''proj'' \<or> p = ''proj/'' then Inr [''sock'', ''locked'', ''a.py'', ''lib'']
            else if p = ''proj/lib'' then Inr [''b.txt'', ''c.bin'']
            else Inl ''[Errno 13] Permission denied'')\<rparr>"

definition blank_content :: string where
  "blank_content = replicate 10001 CHR '' ''"

definition blank_fs :: filesystem where
  "blank_fs =
     \<lparr>read_text = (\<lambda>p. if p = ''pkg/__init__.PY'' then Inr blank_content
                        else Inl ''[Errno 2] No such file or directory''),
      listdir = (\<lambda>p. Inl ''[Errno 20] Not a directory''),
      isdir = (\<lambda>p. False),
      isfile = (\<lambda>p. p = ''pkg/__init__.PY'')\<rparr>"

definition module_text :: string where
  "module_text = ''import os'' @ [newline] @ ''def f():'' @ [newline] @ ''    return 1'' @ [newline]"

definition class_text :: string where
  "class_text =
     ''x = 1'' @ [newline] @ ''class A:'' @ [newline] @ ''    pass'' @ [newline]
       @ ''def g():'' @ [newline] @ ''    pass'' @ [newline]"


section \<open>Chunks are bounded\<close>

lemma windows_bounded: "w \<in> set (windows n s) \<Longrightarrow> length w \<le> n"
proof (induction n s rule: windows.induct)
  case (1 n s)
  then show ?case
    by (subst (asm) windows.simps) (auto split: if_splits)
qed

lemma fixed_size_chunks_bounded:
  "fixed_size_chunks part m = Inr ws \<Longrightarrow> w \<in> set ws \<Longrightarrow> int (length w) \<le> m"
  by (auto simp: fixed_size_chunks_def split: if_splits dest: windows_bounded)

lemma fixed_size_chunks_returns: "m \<noteq> 0 \<Longrightarrow> \<exists>ws. fixed_size_chunks part m = Inr ws"
  by (simp add: fixed_size_chunks_def)

lemma split_parts_bounded:
  "split_parts parts m chunks = Inr cs \<Longrightarrow> \<forall>c \<in> set chunks. int (length c) \<le> m
     \<Longrightarrow> \<forall>c \<in> set cs. int (length c) \<le> m"
proof (induction parts arbitrary: chunks)
  case Nil
  then show ?case by simp
next
  case (Cons part parts)
  show ?case
  proof (cases "strip part = []")
    case True
    with Cons show ?thesis by simp
  next
    case nonempty: False
    show ?thesis
    proof (cases "int (length (strip part)) > m")
      case True
      with nonempty Cons.prems(1) obtain ws where
        ws: "fixed_size_chunks (strip part) m = Inr ws"
        and rest: "split_parts parts m (chunks @ ws) = Inr cs"
        by (auto simp: Let_def split: sum.splits)
      from ws Cons.prems(2) have "\<forall>c \<in> set (chunks @ ws). int (length c) \<le> m"
        by (auto dest: fixed_size_chunks_bounded)
      with Cons.IH rest show ?thesis by blast
    next
      case False
      with nonempty Cons.prems(1) have
        rest: "split_parts parts m (chunks @ [strip part]) = Inr cs"
        by (simp add: Let_def)
      from False Cons.prems(2) have "\<forall>c \<in> set (chunks @ [strip part]). int (length c) \<le> m"
        by auto
      with Cons.IH rest show ?thesis by blast
    qed
  qed
qed

lemma split_parts_returns:
  "m \<noteq> 0 \<Longrightarrow> \<exists>cs. split_parts parts m chunks = Inr cs"
proof (induction parts arbitrary: chunks)
  case Nil
  then show ?case by simp
next
  case (Cons part parts)
  then show ?case
    by (auto simp: Let_def fixed_size_chunks_def)
qed

text \<open>
  Claim C2.  Whatever the content, the extension and \<open>max_chunk_length\<close>, every chunk of
  the sequence that \<open>split_into_logical_chunks\<close> returns has at most \<open>max_chunk_length\<close>
  characters; and the splitter does return a sequence unless \<open>max_chunk_length\<close> is 0
  (the only case in which \<open>range\<close> raises).
\<close>

theorem split_into_logical_chunks_bounded:
  "(max_chunk_length \<noteq> 0 \<longrightarrow>
      (\<exists>chunks. split_into_logical_chunks file_content file_extension max_chunk_length = Inr chunks))
   \<and> (\<forall>chunks. split_into_logical_chunks file_content file_extension max_chunk_length = Inr chunks
         \<longrightarrow> (\<forall>chunk \<in> set chunks. int (length chunk) \<le> max_chunk_length))"
proof (intro conjI impI allI)
  assume "max_chunk_length \<noteq> 0"
  then show "\<exists>chunks. split_into_logical_chunks file_content file_extension max_chunk_length = Inr chunks"
    using split_parts_returns [of max_chunk_length] fixed_size_chunks_returns [of max_chunk_length]
    by (simp add: split_into_logical_chunks_def)
next
  fix chunks
  assume r: "split_into_logical_chunks file_content file_extension max_chunk_length = Inr chunks"
  show "\<forall>chunk \<in> set chunks. int (length chunk) \<le> max_chunk_length"
  proof (cases "lower file_extension = ''.py''")
    case True
    with r have "split_parts (pattern_split True [] file_content) max_chunk_length [] = Inr chunks"
      by (simp add: split_into_logical_chunks_def)
    then show ?thesis
      using split_parts_bounded by fastforce
  next
    case False
    with r show ?thesis
      by (auto simp: split_into_logical_chunks_def split: if_splits
               dest: fixed_size_chunks_bounded)
  qed
qed

theorem split_into_logical_chunks_bounded_witness:
  "(3::int) \<noteq> 0
   \<and> split_into_logical_chunks (''def f'' @ [newline] @ ''class A'' @ [newline]) ''.PY'' 3
       = Inr [''def'', ''def'', '' f'', ''cla'', ''ss'', ''cla'', ''ss '', ''A'']
   \<and> list_all (\<lambda>chunk. int (length chunk) \<le> 3)
        [''def'', ''def'', '' f'', ''cla'', ''ss'', ''cla'', ''ss '', ''A'']"
proof -
  have e: "split_into_logical_chunks (''def f'' @ [newline] @ ''class A'' @ [newline]) ''.PY'' 3
     = Inr [''def'', ''def'', '' f'', ''cla'', ''ss'', ''cla'', ''ss '', ''A'']"
    by code_simp
  from split_into_logical_chunks_bounded
    [of 3 "''def f'' @ [newline] @ ''class A'' @ [newline]" "''.PY''"] e
  have "\<forall>chunk \<in> set [''def'', ''def'', '' f'', ''cla'', ''ss'', ''cla'', ''ss '', ''A''].
         int (length chunk) \<le> 3"
    by blast
  then have "list_all (\<lambda>chunk. int (length chunk) \<le> 3)
        [''def'', ''def'', '' f'', ''cla'', ''ss'', ''cla'', ''ss '', ''A'']"
    unfolding list_all_iff .
  with e show ?thesis by simp
qed

section \<open>The captured keyword among the chunks\<close>

text \<open>
  Claim C1.  Concatenating the chunks gives back the content up to the whitespace trimmed
  at the splits, nothing duplicated and nothing dropped.  The program does not do so on a
  Python file with a \<open>def\<close> line: the pattern's group makes \<open>split\<close> return the keyword as
  a part of its own, so the chunk \<open>def\<close> stands before the chunk that begins with
  \<open>def f\<close>, and the chunks hold the keyword twice where the content holds it once.
\<close>

theorem split_duplicates_boundary_keyword:
  "split_into_logical_chunks module_text ''.py'' 10000
     = Inr [''import os'', ''def'', ''def f():'' @ [newline] @ ''    return 1'']
   \<and> without_whitespace
        (concat [''import os'', ''def'', ''def f():'' @ [newline] @ ''    return 1''])
       = ''importosdefdeff():return1''
   \<and> without_whitespace module_text = ''importosdeff():return1''"
  by code_simp

text \<open>
  Claim C3.  For a \<open>.py\<close> extension the chunks are exactly the trimmed non-empty segments
  between consecutive boundaries, with no chunk added.  On a file with a \<open>class\<close> line and
  a \<open>def\<close> line, every segment far shorter than \<open>max_chunk_length\<close>, the program returns
  five chunks where the segments are three: each boundary adds a chunk that holds the bare
  keyword.
\<close>

theorem split_inserts_keyword_chunks:
  "lower ''.py'' = ''.py''
   \<and> split_into_logical_chunks class_text ''.py'' 10000
       = Inr [''x = 1'', ''class'', ''class A:'' @ [newline] @ ''    pass'',
              ''def'', ''def g():'' @ [newline] @ ''    pass'']
   \<and> boundary_chunks class_text
       = [''x = 1'', ''class A:'' @ [newline] @ ''    pass'', ''def g():'' @ [newline] @ ''    pass'']"
  by code_simp


section \<open>The parts of the split and the boundaries\<close>

lemma is_boundary_here:
  "is_boundary (pre @ c # cs) (length pre)
     = ((pre = [] \<or> last pre = newline) \<and> match_keyword (c # cs) \<noteq> None)"
proof -
  have "(pre @ c # cs) ! (length pre - 1) = last pre" if "pre \<noteq> []"
    using that by (simp add: nth_append last_conv_nth)
  then show ?thesis
    by (cases "pre = []") (auto simp: is_boundary_def match_keyword_def)
qed

lemma keyword_at_here:
  "match_keyword (c # cs) = Some kw \<Longrightarrow> keyword_at (pre @ c # cs) (length pre) = kw"
  by (auto simp: match_keyword_def keyword_at_def split: if_splits)

lemma pattern_split_cut:
  assumes "start \<le> length pre" and "seg = drop start pre"
    and "bol = (pre = [] \<or> last pre = newline)"
  shows "pattern_split bol seg cs =
     weave (cut_at (filter (is_boundary (pre @ cs)) [length pre ..< length pre + length cs])
              start (pre @ cs))
           (map (keyword_at (pre @ cs))
              (filter (is_boundary (pre @ cs)) [length pre ..< length pre + length cs]))"
  using assms
proof (induction cs arbitrary: pre start seg bol)
  case Nil
  then show ?case by simp
next
  case (Cons c cs)
  let ?content = "pre @ c # cs"
  let ?rest = "filter (is_boundary ?content) [Suc (length pre) ..< Suc (length pre) + length cs]"
  have upt: "[length pre ..< length pre + length (c # cs)]
      = length pre # [Suc (length pre) ..< Suc (length pre) + length cs]"
    by (subst upt_rec) simp
  have app: "(pre @ [c]) @ cs = ?content" by simp
  show ?case
  proof (cases "bol \<and> match_keyword (c # cs) \<noteq> None")
    case True
    then obtain kw where kw: "match_keyword (c # cs) = Some kw" by auto
    from True Cons.prems(3) have b: "is_boundary ?content (length pre)"
      by (simp add: is_boundary_here)
    have ih: "pattern_split (c = newline) [c] cs =
        weave (cut_at ?rest (length pre) ?content) (map (keyword_at ?content) ?rest)"
      using Cons.IH [of "length pre" "pre @ [c]" "[c]" "c = newline"] by (simp add: app)
    have "pattern_split bol seg (c # cs) = seg # kw # pattern_split (c = newline) [c] cs"
      using True kw by simp
    also have "\<dots> = weave (cut_at (length pre # ?rest) start ?content)
        (map (keyword_at ?content) (length pre # ?rest))"
      using Cons.prems(1,2) kw by (simp add: ih keyword_at_here)
    finally show ?thesis
      unfolding upt using b by simp
  next
    case False
    with Cons.prems(3) have b: "\<not> is_boundary ?content (length pre)"
      by (simp add: is_boundary_here)
    have ih: "pattern_split (c = newline) (seg @ [c]) cs =
        weave (cut_at ?rest start ?content) (map (keyword_at ?content) ?rest)"
      using Cons.IH [of start "pre @ [c]" "seg @ [c]" "c = newline"] Cons.prems(1,2)
      by (simp add: app)
    have "pattern_split bol seg (c # cs) = pattern_split (c = newline) (seg @ [c]) cs"
      using False by auto
    with ih show ?thesis
      unfolding upt using b by simp
  qed
qed

text \<open>
  The parts that \<open>pattern.split\<close> returns are the segments between consecutive boundaries
  with, before each segment but the first, the keyword that its boundary captured.
\<close>

lemma pattern_split_boundaries:
  "pattern_split True [] content =
     weave (boundary_segments content) (map (keyword_at content) (boundaries content))"
  using pattern_split_cut [of 0 "[]" "[]" True content]
  by (simp add: boundary_segments_def boundaries_def)


lemma split_parts_pieces:
  "0 < m \<Longrightarrow>
     split_parts parts m chunks = Inr (chunks @ concat (map (chunk_pieces m) parts))"
  by (induction parts arbitrary: chunks)
     (simp_all add: Let_def chunk_pieces_def fixed_size_chunks_def)

text \<open>
  For a \<open>.py\<close> extension and a positive \<open>max_chunk_length\<close>, the chunks are the pieces of
  the segments between boundaries and, before each segment but the first, the piece of
  the captured keyword.
\<close>

lemma split_python_chunks:
  assumes "lower file_extension = ''.py''" and "0 < max_chunk_length"
  shows "split_into_logical_chunks file_content file_extension max_chunk_length =
     Inr (concat (map (chunk_pieces max_chunk_length)
            (weave (boundary_segments file_content)
               (map (keyword_at file_content) (boundaries file_content)))))"
  using assms
  by (simp add: split_into_logical_chunks_def split_parts_pieces pattern_split_boundaries)


section \<open>The file summarizer's calls\<close>

lemma summarize_chunks_enumerate:
  "summarize_chunks llm idx chunks (calls, sms) =
     (calls @ map (\<lambda>(i, c). chunk_request i c) (enumerate idx chunks),
      sms @ map (\<lambda>(i, c). llm (chunk_request i c)) (enumerate idx chunks))"
  by (induction chunks arbitrary: idx calls sms) (simp_all add: Let_def)

lemma summarize_file_chunked_eq:
  assumes "read_text fs file_path = Inr file_content"
    and "length file_content > DIRECT_SUMMARY_THRESHOLD"
    and "split_into_logical_chunks file_content (snd (splitext file_path))
           (int DIRECT_SUMMARY_THRESHOLD) = Inr chunks"
  shows "summarize_file llm fs file_path =
     Inr (map (\<lambda>(i, c). chunk_request i c) (enumerate 0 chunks)
            @ [synthesis_request (map (\<lambda>(i, c). llm (chunk_request i c)) (enumerate 0 chunks))],
          llm (synthesis_request (map (\<lambda>(i, c). llm (chunk_request i c)) (enumerate 0 chunks))))"
  using assms by (simp add: summarize_file_def Let_def summarize_chunks_enumerate)

lemma summarize_file_unreadable:
  "read_text fs file_path = Inl e \<Longrightarrow>
     summarize_file llm fs file_path = Inr ([], ''Error reading file: '' @ e)"
  by (simp add: summarize_file_def)

lemma split_threshold_returns:
  "\<exists>cs. split_into_logical_chunks c e (int DIRECT_SUMMARY_THRESHOLD) = Inr cs"
  using split_parts_returns [of "int DIRECT_SUMMARY_THRESHOLD"]
  by (simp add: split_into_logical_chunks_def fixed_size_chunks_def DIRECT_SUMMARY_THRESHOLD_def)

lemma summarize_file_returns: "\<exists>r. summarize_file llm fs file_path = Inr r"
proof (cases "read_text fs file_path")
  case (Inl e)
  then show ?thesis by (simp add: summarize_file_def)
next
  case (Inr file_content)
  show ?thesis
  proof (cases "length file_content \<le> DIRECT_SUMMARY_THRESHOLD")
    case True
    with Inr show ?thesis by (simp add: summarize_file_def Let_def)
  next
    case False
    obtain cs where "split_into_logical_chunks file_content (snd (splitext file_path))
        (int DIRECT_SUMMARY_THRESHOLD) = Inr cs"
      using split_threshold_returns by blast
    with Inr False show ?thesis
      by (simp add: summarize_file_def Let_def split: prod.splits)
  qed
qed

text \<open>What \<open>str.join\<close> and \<open>str()\<close> of a number compute, in terms of the list library.\<close>

lemma str_join_Cons: "str_join sep (x # xs) = x @ concat (map (\<lambda>y. sep @ y) xs)"
  by (induction xs arbitrary: x) simp_all

lemma str_join_nth:
  "str_join sep xs =
     concat (map (\<lambda>i. (if i = 0 then [] else sep) @ xs ! i) [0 ..< length xs])"
proof (cases xs)
  case Nil
  then show ?thesis by simp
next
  case (Cons x ys)
  have "map (\<lambda>i. (if i = 0 then [] else sep) @ (x # ys) ! i) [0 ..< Suc (length ys)]
      = x # map (\<lambda>i. sep @ ys ! i) [0 ..< length ys]"
    by (simp add: upt_conv_Cons map_Suc_upt [symmetric] del: upt_Suc)
  moreover have "map (\<lambda>i. sep @ ys ! i) [0 ..< length ys] = map (\<lambda>y. sep @ y) ys"
    by (rule nth_equalityI) simp_all
  ultimately show ?thesis
    unfolding Cons by (simp add: str_join_Cons del: upt_Suc)
qed

lemma str_nat_nonempty: "str_nat n \<noteq> []"
  by (subst str_nat.simps) simp

lemma str_nat_digits: "c \<in> set (str_nat n) \<Longrightarrow> CHR ''0'' \<le> c \<and> c \<le> CHR ''9''"
proof (induction n rule: str_nat.induct)
  case (1 n)
  have d: "CHR ''0'' \<le> char_of (48 + k) \<and> char_of (48 + k) \<le> CHR ''9''" if "k < 10" for k :: nat
    using that by (simp add: less_eq_char_def)
  show ?case
  proof (cases "n < 10")
    case True
    with "1.prems" have "c = char_of (48 + n)"
      by (subst (asm) str_nat.simps) simp
    with d [OF True] show ?thesis by simp
  next
    case False
    with "1.prems" have "c \<in> set (str_nat (n div 10)) \<or> c = char_of (48 + n mod 10)"
      by (subst (asm) str_nat.simps) auto
    then show ?thesis
      using "1.IH" [OF False] d [of "n mod 10"] by auto
  qed
qed

lemma str_nat_value: "foldl (\<lambda>a c. 10 * a + (of_char c - 48)) 0 (str_nat n) = n"
proof (induction n rule: str_nat.induct)
  case (1 n)
  show ?case
  proof (cases "n < 10")
    case True
    then show ?thesis by (subst str_nat.simps) simp
  next
    case False
    have "n mod 10 < 10" by simp
    then have m: "(48 + n mod 10) mod 256 = 48 + n mod 10" by simp
    from False "1.IH" show ?thesis
      by (subst str_nat.simps) (simp add: m)
  qed
qed

lemma str_nat_no_leading_zero: "0 < n \<Longrightarrow> hd (str_nat n) \<noteq> CHR ''0''"
proof (induction n rule: str_nat.induct)
  case (1 n)
  show ?case
  proof (cases "n < 10")
    case True
    have "char_of (48 + n) \<noteq> CHR ''0''"
    proof
      assume "char_of (48 + n) = CHR ''0''"
      then have "of_char (char_of (48 + n)) = (of_char CHR ''0'' :: nat)" by simp
      with True "1.prems" show False by simp
    qed
    with True show ?thesis by (subst str_nat.simps) simp
  next
    case False
    then have "0 < n div 10" by simp
    from "1.IH" [OF False this] False show ?thesis
      by (subst str_nat.simps) (simp add: str_nat_nonempty)
  qed
qed

text \<open>
  Claim C4.  For a readable file longer than the direct-summary threshold whose split
  yields N chunks, \<open>summarize_file\<close> makes exactly N + 1 collaborator calls.  Call \<open>i\<close>
  (counted from 0) has output cap 150 and its prompt is the chunk instruction with the
  label of part \<open>i + 1\<close>, then chunk \<open>i\<close>; the label is the decimal numeral of \<open>i + 1\<close>:
  digits only, no leading zero, of value \<open>i + 1\<close>.  The last call has output cap 200 and
  its prompt is the synthesis instruction followed by the results of the N chunk calls,
  in order, each but the first preceded by a newline.  The value returned is the result
  of that last call.
\<close>

theorem summarize_file_chunked:
  assumes "read_text fs file_path = Inr file_content"
    and "length file_content > DIRECT_SUMMARY_THRESHOLD"
    and "split_into_logical_chunks file_content (snd (splitext file_path))
           (int DIRECT_SUMMARY_THRESHOLD) = Inr chunks"
  shows "\<exists>calls result.
     summarize_file llm fs file_path = Inr (calls, result)
     \<and> length calls = length chunks + 1
     \<and> (\<forall>i < length chunks. \<exists>label.
           prompt (calls ! i) =
             ''Please provide a brief summary of the following code chunk (part ''
               @ label @ ''):'' @ [CHR 0x0A, CHR 0x0A] @ chunks ! i
           \<and> label = str_nat (i + 1)
           \<and> label \<noteq> [] \<and> hd label \<noteq> CHR ''0''
           \<and> (\<forall>c \<in> set label. CHR ''0'' \<le> c \<and> c \<le> CHR ''9'')
           \<and> foldl (\<lambda>a c. 10 * a + (of_char c - 48)) 0 label = i + 1
           \<and> max_tokens (calls ! i) = 150)
     \<and> prompt (calls ! length chunks) =
          ''Please synthesize the following chunk summaries into one overall summary for the entire file:''
            @ [CHR 0x0A, CHR 0x0A]
            @ concat (map (\<lambda>i. (if i = 0 then [] else [CHR 0x0A]) @ llm (calls ! i))
                        [0 ..< length chunks])
     \<and> prompt (calls ! length chunks) =
          ''Please synthesize the following chunk summaries into one overall summary for the entire file:''
            @ [newline, newline]
            @ str_join [newline] (map (\<lambda>i. llm (calls ! i)) [0 ..< length chunks])
     \<and> max_tokens (calls ! length chunks) = 200
     \<and> result = llm (calls ! length chunks)"
proof -
  define reqs where "reqs = map (\<lambda>(i, c). chunk_request i c) (enumerate 0 chunks)"
  define sms where "sms = map (\<lambda>(i, c). llm (chunk_request i c)) (enumerate 0 chunks)"
  define calls where "calls = reqs @ [synthesis_request sms]"
  have len: "length reqs = length chunks" by (simp add: reqs_def)
  have nth: "calls ! i = chunk_request i (chunks ! i)" if "i < length chunks" for i
    using that by (simp add: calls_def reqs_def nth_append nth_enumerate_eq)
  have lst: "calls ! length chunks = synthesis_request sms"
    using len by (simp add: calls_def nth_append)
  have sms: "sms = map (\<lambda>i. llm (calls ! i)) [0 ..< length chunks]"
    by (rule nth_equalityI) (simp_all add: sms_def nth nth_enumerate_eq)
  have joined: "str_join [newline] sms =
      concat (map (\<lambda>i. (if i = 0 then [] else [CHR 0x0A]) @ llm (calls ! i))
                [0 ..< length chunks])"
  proof -
    have "str_join [newline] sms =
        concat (map (\<lambda>i. (if i = 0 then [] else [newline]) @ sms ! i) [0 ..< length sms])"
      by (rule str_join_nth)
    also have "length sms = length chunks" by (simp add: sms_def)
    also have "map (\<lambda>i. (if i = 0 then [] else [newline]) @ sms ! i) [0 ..< length chunks]
        = map (\<lambda>i. (if i = 0 then [] else [CHR 0x0A]) @ llm (calls ! i)) [0 ..< length chunks]"
      by (rule map_cong [OF refl]) (simp add: sms newline_def)
    finally show ?thesis .
  qed
  have "summarize_file llm fs file_path = Inr (calls, llm (synthesis_request sms))"
    unfolding calls_def reqs_def sms_def using assms by (rule summarize_file_chunked_eq)
  moreover have "length calls = length chunks + 1" by (simp add: calls_def len)
  moreover have "\<forall>i < length chunks. \<exists>label.
           prompt (calls ! i) =
             ''Please provide a brief summary of the following code chunk (part ''
               @ label @ ''):'' @ [CHR 0x0A, CHR 0x0A] @ chunks ! i
           \<and> label = str_nat (i + 1)
           \<and> label \<noteq> [] \<and> hd label \<noteq> CHR ''0''
           \<and> (\<forall>c \<in> set label. CHR ''0'' \<le> c \<and> c \<le> CHR ''9'')
           \<and> foldl (\<lambda>a c. 10 * a + (of_char c - 48)) 0 label = i + 1
           \<and> max_tokens (calls ! i) = 150"
  proof (intro allI impI)
    fix i assume "i < length chunks"
    then have c: "calls ! i = chunk_request i (chunks ! i)" by (rule nth)
    have p: "prompt (calls ! i) =
             ''Please provide a brief summary of the following code chunk (part ''
               @ str_nat (i + 1) @ ''):'' @ [CHR 0x0A, CHR 0x0A] @ chunks ! i"
      unfolding c by (simp add: chunk_request_def newline_def)
    have m: "max_tokens (calls ! i) = 150"
      unfolding c by (simp add: chunk_request_def)
    have z: "hd (str_nat (i + 1)) \<noteq> CHR ''0''"
      by (rule str_nat_no_leading_zero) simp
    have d: "\<forall>c \<in> set (str_nat (i + 1)). CHR ''0'' \<le> c \<and> c \<le> CHR ''9''"
      using str_nat_digits by blast
    have v: "foldl (\<lambda>a c. 10 * a + (of_char c - 48)) 0 (str_nat (i + 1)) = i + 1"
      by (rule str_nat_value)
    from p m z d v str_nat_nonempty [of "i + 1"]
    show "\<exists>label.
           prompt (calls ! i) =
             ''Please provide a brief summary of the following code chunk (part ''
               @ label @ ''):'' @ [CHR 0x0A, CHR 0x0A] @ chunks ! i
           \<and> label = str_nat (i + 1)
           \<and> label \<noteq> [] \<and> hd label \<noteq> CHR ''0''
           \<and> (\<forall>c \<in> set label. CHR ''0'' \<le> c \<and> c \<le> CHR ''9'')
           \<and> foldl (\<lambda>a c. 10 * a + (of_char c - 48)) 0 label = i + 1
           \<and> max_tokens (calls ! i) = 150"
      by blast
  qed
  moreover have s2: "prompt (calls ! length chunks) =
          ''Please synthesize the following chunk summaries into one overall summary for the entire file:''
            @ [newline, newline]
            @ str_join [newline] (map (\<lambda>i. llm (calls ! i)) [0 ..< length chunks])"
    unfolding lst sms [symmetric] by (simp add: synthesis_request_def)
  moreover have "prompt (calls ! length chunks) =
          ''Please synthesize the following chunk summaries into one overall summary for the entire file:''
            @ [CHR 0x0A, CHR 0x0A]
            @ concat (map (\<lambda>i. (if i = 0 then [] else [CHR 0x0A]) @ llm (calls ! i))
                        [0 ..< length chunks])"
    unfolding s2 sms [symmetric] joined by (simp add: newline_def)
  moreover have "max_tokens (calls ! length chunks) = 200"
    unfolding lst by (simp add: synthesis_request_def)
  moreover have "llm (synthesis_request sms) = llm (calls ! length chunks)"
    unfolding lst by simp
  ultimately show ?thesis by blast
qed

lemma big_read: "read_text big_fs ''big.txt'' = Inr big_content"
  by (simp add: big_fs_def)

lemma big_length: "length big_content > DIRECT_SUMMARY_THRESHOLD"
  by (simp add: big_content_def DIRECT_SUMMARY_THRESHOLD_def)

lemma big_split:
  "split_into_logical_chunks big_content (snd (splitext ''big.txt''))
     (int DIRECT_SUMMARY_THRESHOLD) = Inr [replicate 10000 CHR ''a'', ''a'']"
proof -
  have e: "snd (splitext ''big.txt'') = ''.txt''" by code_simp
  have l: "lower ''.txt'' \<noteq> ''.py''" by code_simp
  have w: "windows 10000 (replicate 10001 CHR ''a'') = [replicate 10000 CHR ''a'', ''a'']"
    by (simp add: windows.simps [of 10000])
  show ?thesis
    unfolding e
    by (simp add: split_into_logical_chunks_def l big_content_def
          DIRECT_SUMMARY_THRESHOLD_def fixed_size_chunks_def w)
qed

lemma llm_call_first_chunk:
  assumes "prompt r = ''Please provide a brief summary of the following code chunk (part 1):''
             @ [CHR 0x0A, CHR 0x0A] @ replicate 10000 CHR ''a''"
  shows "llm_call r =
    ''LLM_Summary (truncated): Please provide a brief summary of the following code chunk (part 1):  aaaaa...''"
proof -
  have t: "take 5 (replicate 10000 CHR ''a'') = ''aaaaa''"
    by (simp add: numeral_eq_Suc)
  have "take 75 (prompt r) =
      ''Please provide a brief summary of the following code chunk (part 1):''
        @ [CHR 0x0A, CHR 0x0A] @ ''aaaaa''"
    unfolding assms by (simp add: t del: take_replicate)
  then show ?thesis
    by (simp add: llm_call_def newline_def)
qed

lemma llm_call_second_chunk:
  assumes "prompt r = ''Please provide a brief summary of the following code chunk (part 2):''
             @ [CHR 0x0A, CHR 0x0A] @ ''a''"
  shows "llm_call r =
    ''LLM_Summary (truncated): Please provide a brief summary of the following code chunk (part 2):  a...''"
  by (simp add: llm_call_def newline_def assms)

theorem summarize_file_chunked_witness:
  "read_text big_fs ''big.txt'' = Inr big_content
   \<and> length big_content > DIRECT_SUMMARY_THRESHOLD
   \<and> split_into_logical_chunks big_content (snd (splitext ''big.txt''))
        (int DIRECT_SUMMARY_THRESHOLD) = Inr [replicate 10000 CHR ''a'', ''a'']
   \<and> (\<exists>calls result.
         summarize_file llm_call big_fs ''big.txt'' = Inr (calls, result)
         \<and> length calls = 3
         \<and> prompt (calls ! 0) =
             ''Please provide a brief summary of the following code chunk (part 1):''
               @ [CHR 0x0A, CHR 0x0A] @ replicate 10000 CHR ''a''
         \<and> prompt (calls ! 1) =
             ''Please provide a brief summary of the following code chunk (part 2):''
               @ [CHR 0x0A, CHR 0x0A] @ ''a''
         \<and> max_tokens (calls ! 0) = 150 \<and> max_tokens (calls ! 1) = 150
         \<and> prompt (calls ! 2) =
             ''Please synthesize the following chunk summaries into one overall summary for the entire file:''
               @ [CHR 0x0A, CHR 0x0A]
               @ ''LLM_Summary (truncated): Please provide a brief summary of the following code chunk (part 1):  aaaaa...''
               @ [CHR 0x0A]
               @ ''LLM_Summary (truncated): Please provide a brief summary of the following code chunk (part 2):  a...''
         \<and> max_tokens (calls ! 2) = 200
         \<and> result =
             ''LLM_Summary (truncated): Please synthesize the following chunk summaries into one overall summary fo...'')"
proof -
  let ?chunks = "[replicate 10000 CHR ''a'', ''a'']"
  from summarize_file_chunked [OF big_read big_length big_split, of llm_call]
  obtain calls result where
    a: "summarize_file llm_call big_fs ''big.txt'' = Inr (calls, result)"
    and b: "length calls = length ?chunks + 1"
    and c: "\<forall>i < length ?chunks. \<exists>label.
           prompt (calls ! i) =
             ''Please provide a brief summary of the following code chunk (part ''
               @ label @ ''):'' @ [CHR 0x0A, CHR 0x0A] @ ?chunks ! i
           \<and> label = str_nat (i + 1)
           \<and> label \<noteq> [] \<and> hd label \<noteq> CHR ''0''
           \<and> (\<forall>c \<in> set label. CHR ''0'' \<le> c \<and> c \<le> CHR ''9'')
           \<and> foldl (\<lambda>a c. 10 * a + (of_char c - 48)) 0 label = i + 1
           \<and> max_tokens (calls ! i) = 150"
    and d: "prompt (calls ! length ?chunks) =
          ''Please synthesize the following chunk summaries into one overall summary for the entire file:''
            @ [CHR 0x0A, CHR 0x0A]
            @ concat (map (\<lambda>i. (if i = 0 then [] else [CHR 0x0A]) @ llm_call (calls ! i))
                        [0 ..< length ?chunks])"
    and e: "max_tokens (calls ! length ?chunks) = 200"
    and f: "result = llm_call (calls ! length ?chunks)"
    by blast
  have n1: "str_nat (0 + 1) = ''1''" by code_simp
  have n2: "str_nat (1 + 1) = ''2''" by code_simp
  from b have b': "length calls = 3" by simp
  from c have "\<exists>label.
           prompt (calls ! 0) =
             ''Please provide a brief summary of the following code chunk (part ''
               @ label @ ''):'' @ [CHR 0x0A, CHR 0x0A] @ ?chunks ! 0
           \<and> label = str_nat (0 + 1) \<and> max_tokens (calls ! 0) = 150"
    by fastforce
  then have p0: "prompt (calls ! 0) =
             ''Please provide a brief summary of the following code chunk (part 1):''
               @ [CHR 0x0A, CHR 0x0A] @ replicate 10000 CHR ''a''"
    and m0: "max_tokens (calls ! 0) = 150"
    unfolding n1 by auto
  from c have "\<exists>label.
           prompt (calls ! 1) =
             ''Please provide a brief summary of the following code chunk (part ''
               @ label @ ''):'' @ [CHR 0x0A, CHR 0x0A] @ ?chunks ! 1
           \<and> label = str_nat (1 + 1) \<and> max_tokens (calls ! 1) = 150"
    by fastforce
  then have p1: "prompt (calls ! 1) =
             ''Please provide a brief summary of the following code chunk (part 2):''
               @ [CHR 0x0A, CHR 0x0A] @ ''a''"
    and m1: "max_tokens (calls ! 1) = 150"
    unfolding n2 by auto
  have r0: "llm_call (calls ! 0) =
      ''LLM_Summary (truncated): Please provide a brief summary of the following code chunk (part 1):  aaaaa...''"
    using p0 by (rule llm_call_first_chunk)
  have r1: "llm_call (calls ! 1) =
      ''LLM_Summary (truncated): Please provide a brief summary of the following code chunk (part 2):  a...''"
    using p1 by (rule llm_call_second_chunk)
  have u: "[0 ..< length ?chunks] = [0, 1]"
    by (simp add: upt_conv_Cons)
  have l2: "length ?chunks = 2" by simp
  from d have p2: "prompt (calls ! 2) =
             ''Please synthesize the following chunk summaries into one overall summary for the entire file:''
               @ [CHR 0x0A, CHR 0x0A]
               @ ''LLM_Summary (truncated): Please provide a brief summary of the following code chunk (part 1):  aaaaa...''
               @ [CHR 0x0A]
               @ ''LLM_Summary (truncated): Please provide a brief summary of the following code chunk (part 2):  a...''"
    unfolding u unfolding l2 using r1 by (simp add: r0)
  from e have m2: "max_tokens (calls ! 2) = 200"
    unfolding l2 .
  have "llm_call (calls ! 2) =
      ''LLM_Summary (truncated): Please synthesize the following chunk summaries into one overall summary fo...''"
    by (simp add: llm_call_def p2 newline_def)
  with f have res: "result =
      ''LLM_Summary (truncated): Please synthesize the following chunk summaries into one overall summary fo...''"
    unfolding l2 by simp
  from a b' p0 p1 m0 m1 p2 m2 res have "\<exists>calls result.
         summarize_file llm_call big_fs ''big.txt'' = Inr (calls, result)
         \<and> length calls = 3
         \<and> prompt (calls ! 0) =
             ''Please provide a brief summary of the following code chunk (part 1):''
               @ [CHR 0x0A, CHR 0x0A] @ replicate 10000 CHR ''a''
         \<and> prompt (calls ! 1) =
             ''Please provide a brief summary of the following code chunk (part 2):''
               @ [CHR 0x0A, CHR 0x0A] @ ''a''
         \<and> max_tokens (calls ! 0) = 150 \<and> max_tokens (calls ! 1) = 150
         \<and> prompt (calls ! 2) =
             ''Please synthesize the following chunk summaries into one overall summary for the entire file:''
               @ [CHR 0x0A, CHR 0x0A]
               @ ''LLM_Summary (truncated): Please provide a brief summary of the following code chunk (part 1):  aaaaa...''
               @ [CHR 0x0A]
               @ ''LLM_Summary (truncated): Please provide a brief summary of the following code chunk (part 2):  a...''
         \<and> max_tokens (calls ! 2) = 200
         \<and> result =
             ''LLM_Summary (truncated): Please synthesize the following chunk summaries into one overall summary fo...''"
    by blast
  with big_read big_length big_split show ?thesis by blast
qed

text \<open>
  Claim C5.  For a readable file of at most \<open>DIRECT_SUMMARY_THRESHOLD\<close> characters,
  \<open>summarize_file\<close> makes exactly one collaborator call, whose prompt is the fixed
  instruction followed by the whole file content, and returns that call's result
  unchanged.
\<close>

theorem summarize_file_direct:
  assumes "read_text fs file_path = Inr file_content"
    and "length file_content \<le> DIRECT_SUMMARY_THRESHOLD"
  shows "\<exists>request.
     summarize_file llm fs file_path = Inr ([request], llm request)
     \<and> prompt request =
         ''Please provide a concise summary of the following code:''
           @ [newline, newline] @ file_content
     \<and> suffix file_content (prompt request)
     \<and> max_tokens request = 150"
  using assms by (simp add: summarize_file_def direct_request_def Let_def suffix_def)

theorem summarize_file_direct_witness:
  "read_text small_fs ''proj/a.py'' = Inr ''x = 1''
   \<and> length ''x = 1'' \<le> DIRECT_SUMMARY_THRESHOLD
   \<and> summarize_file llm_call small_fs ''proj/a.py''
       = Inr ([direct_request ''x = 1''],
              ''LLM_Summary (truncated): Please provide a concise summary of the following code:  x = 1...'')"
proof -
  have r: "read_text small_fs ''proj/a.py'' = Inr ''x = 1''"
    by (simp add: small_fs_def)
  have l: "length ''x = 1'' \<le> DIRECT_SUMMARY_THRESHOLD"
    by (simp add: DIRECT_SUMMARY_THRESHOLD_def)
  from summarize_file_direct [OF r l, of llm_call]
  obtain request where
    q: "summarize_file llm_call small_fs ''proj/a.py'' = Inr ([request], llm_call request)"
    and p: "prompt request = ''Please provide a concise summary of the following code:''
           @ [newline, newline] @ ''x = 1''"
    by blast
  have "llm_call request =
      ''LLM_Summary (truncated): Please provide a concise summary of the following code:  x = 1...''"
    by (simp add: llm_call_def p newline_def)
  moreover have "request = direct_request ''x = 1''"
    using q r l by (simp add: summarize_file_def Let_def)
  ultimately show ?thesis using q r l by simp
qed

section \<open>The walker, entry by entry\<close>

lemma process_entries_Cons:
  "process_entries llm fs depth d i (entry # entries) (calls, index_lines) =
     (case entry_result llm fs depth d i entry of
        Inl err \<Rightarrow> Inl err
      | Inr (cs, ls) \<Rightarrow> process_entries llm fs depth d i entries (calls @ cs, index_lines @ ls))"
  by (simp add: entry_result_def Let_def split: sum.splits prod.splits)

lemma process_entries_acc:
  "process_entries llm fs depth d i entries (calls, index_lines) =
     (case process_entries llm fs depth d i entries ([], []) of
        Inl err \<Rightarrow> Inl err
      | Inr (cs, ls) \<Rightarrow> Inr (calls @ cs, index_lines @ ls))"
proof (induction entries arbitrary: calls index_lines)
  case Nil
  then show ?case by simp
next
  case (Cons entry entries)
  show ?case
  proof (cases "entry_result llm fs depth d i entry")
    case (Inl err)
    then show ?thesis by (simp only: process_entries_Cons sum.case)
  next
    case (Inr r)
    obtain cs ls where r: "r = (cs, ls)" by (cases r)
    have 1: "process_entries llm fs depth d i (entry # entries) (calls, index_lines)
        = process_entries llm fs depth d i entries (calls @ cs, index_lines @ ls)"
      by (simp only: process_entries_Cons Inr r sum.case prod.case)
    have 2: "process_entries llm fs depth d i (entry # entries) ([], [])
        = process_entries llm fs depth d i entries (cs, ls)"
      by (simp only: process_entries_Cons Inr r sum.case prod.case append_Nil)
    show ?thesis
      unfolding 1 2
      by (subst Cons.IH, subst (2) Cons.IH) (simp split: sum.splits prod.splits)
  qed
qed

lemma process_entries_step:
  "process_entries llm fs depth d i (entry # entries) ([], []) =
     (case entry_result llm fs depth d i entry of
        Inl err \<Rightarrow> Inl err
      | Inr (cs, ls) \<Rightarrow>
          (case process_entries llm fs depth d i entries ([], []) of
             Inl err \<Rightarrow> Inl err
           | Inr (cs', ls') \<Rightarrow> Inr (cs @ cs', ls @ ls')))"
proof (cases "entry_result llm fs depth d i entry")
  case (Inl err)
  then show ?thesis by (simp only: process_entries_Cons sum.case)
next
  case (Inr r)
  obtain cs ls where r: "r = (cs, ls)" by (cases r)
  show ?thesis
    by (simp only: process_entries_Cons Inr r sum.case prod.case append_Nil)
       (rule process_entries_acc)
qed

lemma process_entries_returns:
  assumes "\<forall>entry \<in> set entries. \<exists>r. entry_result llm fs depth d i entry = Inr r"
  shows "\<exists>r. process_entries llm fs depth d i entries ([], []) = Inr r"
  using assms
proof (induction entries)
  case Nil
  then show ?case by simp
next
  case (Cons entry entries)
  then obtain r r' where "entry_result llm fs depth d i entry = Inr r"
    and "process_entries llm fs depth d i entries ([], []) = Inr r'"
    by auto
  then show ?case
    by (cases r; cases r') (simp add: process_entries_step del: process_entries.simps)
qed

lemma process_entries_contains:
  assumes "process_entries llm fs depth d i entries ([], []) = Inr (calls, index_lines)"
    and "entry \<in> set entries"
  shows "\<exists>cs ls. entry_result llm fs depth d i entry = Inr (cs, ls)
           \<and> sublist cs calls \<and> sublist ls index_lines"
  using assms
proof (induction entries arbitrary: calls index_lines)
  case Nil
  then show ?case by simp
next
  case (Cons e entries)
  from Cons.prems(1) obtain cs ls cs' ls' where
    e: "entry_result llm fs depth d i e = Inr (cs, ls)"
    and rest: "process_entries llm fs depth d i entries ([], []) = Inr (cs', ls')"
    and c: "calls = cs @ cs'" and l: "index_lines = ls @ ls'"
    by (auto simp: process_entries_step simp del: process_entries.simps
          split: sum.splits prod.splits)
  show ?case
  proof (cases "entry = e")
    case True
    with e c l show ?thesis by auto
  next
    case False
    with Cons.prems(2) have "entry \<in> set entries" by simp
    from Cons.IH [OF rest this] obtain cs2 ls2 where
      "entry_result llm fs depth d i entry = Inr (cs2, ls2)"
      "sublist cs2 cs'" "sublist ls2 ls'"
      by blast
    then show ?thesis
      unfolding c l by (auto simp: sublist_append)
  qed
qed

lemma indent_spaces: "concat (replicate n ''    '') = replicate (4 * n) CHR '' ''"
  by (induction n) (simp_all add: replicate_add eval_nat_numeral)

lemma process_directory_listed:
  assumes "listdir fs d = Inr names"
  shows "process_directory llm fs (Suc depth) d i =
     (case process_entries llm fs depth d i (sort names) ([], []) of
        Inl err \<Rightarrow> Inl err
      | Inr (cs, ls) \<Rightarrow>
          Inr (cs, (concat (replicate i ''    '') @ ''Directory: ''
                     @ (if basename d \<noteq> [] then basename d else d)) # ls))"
  using assms
  by (simp add: Let_def process_entries_acc [of _ _ _ _ _ _ "[]" "[x]" for x]
           split: sum.splits prod.splits)

lemma process_directory_unlisted:
  assumes "listdir fs d = Inl e"
  shows "process_directory llm fs (Suc depth) d i =
     Inr ([], [concat (replicate i ''    '') @ ''Directory: ''
                 @ (if basename d \<noteq> [] then basename d else d),
               concat (replicate i ''    '') @ ''    Error reading directory: '' @ e])"
  using assms by (simp add: Let_def)


lemma process_directory_complete:
  assumes "listdir fs d = Inr names"
    and "\<forall>sub \<in> set names. isdir fs (join d sub) \<longrightarrow>
           (\<exists>r. process_directory llm fs depth (join d sub) (i + 1) = Inr r)"
  shows "\<exists>calls index_lines.
     process_directory llm fs (Suc depth) d i = Inr (calls, index_lines)
     \<and> (\<forall>entry \<in> set names. \<exists>cs ls.
           entry_result llm fs depth d i entry = Inr (cs, ls)
           \<and> sublist cs calls \<and> sublist ls index_lines)"
proof -
  have "\<exists>r. entry_result llm fs depth d i entry = Inr r" if "entry \<in> set names" for entry
  proof (cases "isdir fs (join d entry)")
    case True
    with assms(2) that show ?thesis by (simp add: entry_result_def Let_def)
  next
    case False
    obtain cs s where "summarize_file llm fs (join d entry) = Inr (cs, s)"
      using summarize_file_returns [of llm fs "join d entry"] by auto
    with False show ?thesis by (simp add: entry_result_def Let_def)
  qed
  then have "\<forall>entry \<in> set (sort names). \<exists>r. entry_result llm fs depth d i entry = Inr r"
    by simp
  from process_entries_returns [OF this] obtain cs ls where
    pe: "process_entries llm fs depth d i (sort names) ([], []) = Inr (cs, ls)"
    by auto
  let ?hdr = "concat (replicate i ''    '') @ ''Directory: ''
                     @ (if basename d \<noteq> [] then basename d else d)"
  have pd: "process_directory llm fs (Suc depth) d i = Inr (cs, ?hdr # ls)"
    by (simp only: process_directory_listed [OF assms(1)] pe sum.case prod.case)
  have "\<exists>cs' ls'. entry_result llm fs depth d i entry = Inr (cs', ls')
           \<and> sublist cs' cs \<and> sublist ls' (?hdr # ls)" if "entry \<in> set names" for entry
  proof -
    from that have "entry \<in> set (sort names)" by simp
    from process_entries_contains [OF pe this] show ?thesis
      by (auto simp: sublist_Cons_right)
  qed
  with pd show ?thesis by blast
qed

lemma entry_result_file:
  assumes "\<not> isdir fs (join d entry)" and "isfile fs (join d entry)"
    and "entry_result llm fs depth d i entry = Inr (cs, ls)"
  shows "\<exists>summary. summarize_file llm fs (join d entry) = Inr (cs, summary)
     \<and> ls = [concat (replicate i ''    '') @ ''    File: '' @ entry,
             concat (replicate i ''    '') @ ''        Summary: '' @ summary]"
  using assms by (auto simp: entry_result_def Let_def split: sum.splits prod.splits)

lemma entry_result_dir:
  assumes "isdir fs (join d entry)"
  shows "entry_result llm fs depth d i entry = process_directory llm fs depth (join d entry) (i + 1)"
  using assms by (simp add: entry_result_def Let_def)

section \<open>Failures that do not stop the walk\<close>

text \<open>
  Claim C6.  When reading a file fails, \<open>summarize_file\<close> returns the text
  \<open>Error reading file: \<close> followed by the exception's text, and makes no collaborator call.
  The walk of the directory that lists the file goes on: provided the walks of its
  subdirectories return, it returns, its lines hold the \<open>File:\<close> line of the unreadable
  file with that error text as summary, the \<open>File:\<close> and \<open>Summary:\<close> lines of every other
  regular file it lists, and the lines of every subdirectory.
\<close>

theorem unreadable_file_reported:
  assumes "read_text fs file_path = Inl e"
  shows "summarize_file llm fs file_path = Inr ([], ''Error reading file: '' @ e)
     \<and> (\<forall>directory indent depth names entry.
          listdir fs directory = Inr names \<and> entry \<in> set names
          \<and> join directory entry = file_path
          \<and> \<not> isdir fs file_path \<and> isfile fs file_path
          \<and> (\<forall>sub \<in> set names. isdir fs (join directory sub) \<longrightarrow>
                (\<exists>r. process_directory llm fs depth (join directory sub) (indent + 1) = Inr r))
          \<longrightarrow> (\<exists>calls index_lines.
                process_directory llm fs (Suc depth) directory indent = Inr (calls, index_lines)
                \<and> sublist [concat (replicate indent ''    '') @ ''    File: '' @ entry,
                            concat (replicate indent ''    '')
                              @ ''        Summary: Error reading file: '' @ e] index_lines
                \<and> (\<forall>other \<in> set names.
                      \<not> isdir fs (join directory other) \<and> isfile fs (join directory other) \<longrightarrow>
                      (\<exists>cs summary.
                          summarize_file llm fs (join directory other) = Inr (cs, summary)
                          \<and> sublist cs calls
                          \<and> sublist [concat (replicate indent ''    '') @ ''    File: '' @ other,
                                      concat (replicate indent ''    '')
                                        @ ''        Summary: '' @ summary] index_lines))
                \<and> (\<forall>sub \<in> set names. isdir fs (join directory sub) \<longrightarrow>
                      (\<exists>cs ls.
                          process_directory llm fs depth (join directory sub) (indent + 1) = Inr (cs, ls)
                          \<and> sublist cs calls \<and> sublist ls index_lines))))"
proof (intro conjI allI impI)
  show s: "summarize_file llm fs file_path = Inr ([], ''Error reading file: '' @ e)"
    using assms by (rule summarize_file_unreadable)
  fix directory indent depth names entry
  assume h: "listdir fs directory = Inr names \<and> entry \<in> set names
          \<and> join directory entry = file_path
          \<and> \<not> isdir fs file_path \<and> isfile fs file_path
          \<and> (\<forall>sub \<in> set names. isdir fs (join directory sub) \<longrightarrow>
                (\<exists>r. process_directory llm fs depth (join directory sub) (indent + 1) = Inr r))"
  then have l: "listdir fs directory = Inr names" and m: "entry \<in> set names"
    and p: "join directory entry = file_path"
    and nd: "\<not> isdir fs (join directory entry)" and f: "isfile fs (join directory entry)"
    and subs: "\<forall>sub \<in> set names. isdir fs (join directory sub) \<longrightarrow>
                (\<exists>r. process_directory llm fs depth (join directory sub) (indent + 1) = Inr r)"
    by simp_all
  from process_directory_complete [OF l subs] obtain calls index_lines where
    pd: "process_directory llm fs (Suc depth) directory indent = Inr (calls, index_lines)"
    and all: "\<forall>entry \<in> set names. \<exists>cs ls.
           entry_result llm fs depth directory indent entry = Inr (cs, ls)
           \<and> sublist cs calls \<and> sublist ls index_lines"
    by blast
  have files: "\<exists>cs summary.
        summarize_file llm fs (join directory other) = Inr (cs, summary)
        \<and> sublist cs calls
        \<and> sublist [concat (replicate indent ''    '') @ ''    File: '' @ other,
                    concat (replicate indent ''    '') @ ''        Summary: '' @ summary]
             index_lines"
    if "other \<in> set names" "\<not> isdir fs (join directory other)" "isfile fs (join directory other)"
    for other
  proof -
    from all that(1) obtain cs ls where
      er: "entry_result llm fs depth directory indent other = Inr (cs, ls)"
      and sub: "sublist cs calls" "sublist ls index_lines"
      by blast
    from entry_result_file [OF that(2,3) er] sub show ?thesis by blast
  qed
  have dirs: "\<exists>cs ls.
        process_directory llm fs depth (join directory sub) (indent + 1) = Inr (cs, ls)
        \<and> sublist cs calls \<and> sublist ls index_lines"
    if "sub \<in> set names" "isdir fs (join directory sub)" for sub
    using all that by (auto simp: entry_result_dir)
  from files [OF m nd f] s p have
    "sublist [concat (replicate indent ''    '') @ ''    File: '' @ entry,
              concat (replicate indent ''    '') @ ''        Summary: Error reading file: '' @ e]
       index_lines"
    by auto
  with pd files dirs
  show "\<exists>calls index_lines.
          process_directory llm fs (Suc depth) directory indent = Inr (calls, index_lines)
          \<and> sublist [concat (replicate indent ''    '') @ ''    File: '' @ entry,
                      concat (replicate indent ''    '')
                        @ ''        Summary: Error reading file: '' @ e] index_lines
          \<and> (\<forall>other \<in> set names.
                \<not> isdir fs (join directory other) \<and> isfile fs (join directory other) \<longrightarrow>
                (\<exists>cs summary.
                    summarize_file llm fs (join directory other) = Inr (cs, summary)
                    \<and> sublist cs calls
                    \<and> sublist [concat (replicate indent ''    '') @ ''    File: '' @ other,
                                concat (replicate indent ''    '')
                                  @ ''        Summary: '' @ summary] index_lines))
          \<and> (\<forall>sub \<in> set names. isdir fs (join directory sub) \<longrightarrow>
                (\<exists>cs ls.
                    process_directory llm fs depth (join directory sub) (indent + 1) = Inr (cs, ls)
                    \<and> sublist cs calls \<and> sublist ls index_lines))"
    by blast
qed

lemma demo_lib_walk:
  "process_directory llm_call demo_fs 1 ''proj/lib'' 1 =
     Inr ([direct_request ''hello''],
      [''    Directory: lib'', ''        File: b.txt'',
       ''            Summary: LLM_Summary (truncated): Please provide a concise summary of the following code:  hello...'',
       ''        File: c.bin'',
       ''            Summary: Error reading file: invalid start byte''])"
  by code_simp

theorem unreadable_file_reported_witness:
  "read_text demo_fs ''proj/lib/c.bin'' = Inl ''invalid start byte''
   \<and> summarize_file llm_call demo_fs ''proj/lib/c.bin''
       = Inr ([], ''Error reading file: invalid start byte'')
   \<and> (\<exists>calls index_lines.
         process_directory llm_call demo_fs 1 ''proj/lib'' 1 = Inr (calls, index_lines)
         \<and> sublist [''        File: c.bin'',
                     ''            Summary: Error reading file: invalid start byte''] index_lines
         \<and> sublist [''        File: b.txt'',
                     ''            Summary: LLM_Summary (truncated): Please provide a concise summary of the following code:  hello...''] index_lines)"
proof -
  have r: "read_text demo_fs ''proj/lib/c.bin'' = Inl ''invalid start byte''"
    by (simp add: demo_fs_def)
  note t = unreadable_file_reported [OF r, of llm_call]
  from t have s: "summarize_file llm_call demo_fs ''proj/lib/c.bin''
       = Inr ([], ''Error reading file: invalid start byte'')"
    by simp
  have h: "listdir demo_fs ''proj/lib'' = Inr [''c.bin'', ''b.txt'']
      \<and> ''c.bin'' \<in> set [''c.bin'', ''b.txt'']
      \<and> join ''proj/lib'' ''c.bin'' = ''proj/lib/c.bin''
      \<and> \<not> isdir demo_fs ''proj/lib/c.bin'' \<and> isfile demo_fs ''proj/lib/c.bin''
      \<and> (\<forall>sub \<in> set [''c.bin'', ''b.txt'']. isdir demo_fs (join ''proj/lib'' sub) \<longrightarrow>
            (\<exists>r. process_directory llm_call demo_fs 0 (join ''proj/lib'' sub) (1 + 1) = Inr r))"
    by (simp add: demo_fs_def join_def)
  from t [THEN conjunct2, rule_format, OF h] obtain calls index_lines where
    pd: "process_directory llm_call demo_fs (Suc 0) ''proj/lib'' 1 = Inr (calls, index_lines)"
    and c: "sublist [concat (replicate 1 ''    '') @ ''    File: '' @ ''c.bin'',
                     concat (replicate 1 ''    '')
                       @ ''        Summary: Error reading file: '' @ ''invalid start byte''] index_lines"
    by blast
  from pd have il: "index_lines = [''    Directory: lib'', ''        File: b.txt'',
       ''            Summary: LLM_Summary (truncated): Please provide a concise summary of the following code:  hello...'',
       ''        File: c.bin'',
       ''            Summary: Error reading file: invalid start byte'']"
    using demo_lib_walk by simp
  have b: "sublist [''        File: b.txt'',
                     ''            Summary: LLM_Summary (truncated): Please provide a concise summary of the following code:  hello...''] index_lines"
    unfolding il by code_simp
  from c have c': "sublist [''        File: c.bin'',
                     ''            Summary: Error reading file: invalid start byte''] index_lines"
    by simp
  from pd have pd': "process_directory llm_call demo_fs 1 ''proj/lib'' 1 = Inr (calls, index_lines)"
    by simp
  from r s pd' c' b show ?thesis by blast
qed


text \<open>
  Claim C7.  When listing a directory fails, \<open>process_directory\<close> returns the line
  announcing the directory and one error line, with no collaborator call and whatever the
  recursion depth left (it does not descend).  The walk of the parent goes on: provided
  the walks of the parent's subdirectories return, it returns, and its lines hold those
  two lines and the contribution of every entry of the parent.
\<close>

theorem unlistable_directory_reported:
  assumes "listdir fs directory = Inl e"
  shows "process_directory llm fs (Suc depth) directory indent =
       Inr ([], [concat (replicate indent ''    '') @ ''Directory: ''
                   @ (if basename directory \<noteq> [] then basename directory else directory),
                 concat (replicate indent ''    '') @ ''    Error reading directory: '' @ e])
     \<and> (\<forall>parent names entry.
          listdir fs parent = Inr names \<and> entry \<in> set names
          \<and> join parent entry = directory \<and> isdir fs directory
          \<and> (\<forall>sub \<in> set names. isdir fs (join parent sub) \<longrightarrow>
                (\<exists>r. process_directory llm fs (Suc depth) (join parent sub) (indent + 1) = Inr r))
          \<longrightarrow> (\<exists>calls index_lines.
                process_directory llm fs (Suc (Suc depth)) parent indent = Inr (calls, index_lines)
                \<and> sublist [concat (replicate (indent + 1) ''    '') @ ''Directory: ''
                             @ (if basename directory \<noteq> [] then basename directory else directory),
                            concat (replicate (indent + 1) ''    '')
                              @ ''    Error reading directory: '' @ e] index_lines
                \<and> (\<forall>other \<in> set names. \<exists>cs ls.
                      entry_result llm fs (Suc depth) parent indent other = Inr (cs, ls)
                      \<and> sublist cs calls \<and> sublist ls index_lines)))"
proof (intro conjI allI impI)
  show own: "process_directory llm fs (Suc depth) directory indent =
       Inr ([], [concat (replicate indent ''    '') @ ''Directory: ''
                   @ (if basename directory \<noteq> [] then basename directory else directory),
                 concat (replicate indent ''    '') @ ''    Error reading directory: '' @ e])"
    for depth indent
    using assms by (rule process_directory_unlisted)
  fix parent names entry
  assume h: "listdir fs parent = Inr names \<and> entry \<in> set names
          \<and> join parent entry = directory \<and> isdir fs directory
          \<and> (\<forall>sub \<in> set names. isdir fs (join parent sub) \<longrightarrow>
                (\<exists>r. process_directory llm fs (Suc depth) (join parent sub) (indent + 1) = Inr r))"
  then have l: "listdir fs parent = Inr names" and m: "entry \<in> set names"
    and d: "isdir fs (join parent entry)" and p: "join parent entry = directory"
    and subs: "\<forall>sub \<in> set names. isdir fs (join parent sub) \<longrightarrow>
                (\<exists>r. process_directory llm fs (Suc depth) (join parent sub) (indent + 1) = Inr r)"
    by simp_all
  from process_directory_complete [OF l subs] obtain calls index_lines where
    pd: "process_directory llm fs (Suc (Suc depth)) parent indent = Inr (calls, index_lines)"
    and all: "\<forall>other \<in> set names. \<exists>cs ls.
           entry_result llm fs (Suc depth) parent indent other = Inr (cs, ls)
           \<and> sublist cs calls \<and> sublist ls index_lines"
    by blast
  from all m obtain cs ls where
    er: "entry_result llm fs (Suc depth) parent indent entry = Inr (cs, ls)"
    and sub: "sublist ls index_lines"
    by blast
  from er have "ls = [concat (replicate (indent + 1) ''    '') @ ''Directory: ''
                   @ (if basename directory \<noteq> [] then basename directory else directory),
                 concat (replicate (indent + 1) ''    '') @ ''    Error reading directory: '' @ e]"
    unfolding entry_result_dir [OF d] p own by simp
  with sub pd all
  show "\<exists>calls index_lines.
          process_directory llm fs (Suc (Suc depth)) parent indent = Inr (calls, index_lines)
          \<and> sublist [concat (replicate (indent + 1) ''    '') @ ''Directory: ''
                       @ (if basename directory \<noteq> [] then basename directory else directory),
                      concat (replicate (indent + 1) ''    '')
                        @ ''    Error reading directory: '' @ e] index_lines
          \<and> (\<forall>other \<in> set names. \<exists>cs ls.
                entry_result llm fs (Suc depth) parent indent other = Inr (cs, ls)
                \<and> sublist cs calls \<and> sublist ls index_lines)"
    by blast
qed


lemma demo_joins:
  "join ''proj'' ''lib'' = ''proj/lib''" "join ''proj'' ''a.py'' = ''proj/a.py''"
  "join ''proj'' ''sock'' = ''proj/sock''" "join ''proj'' ''locked'' = ''proj/locked''"
  by (simp_all add: join_def)

theorem unlistable_directory_reported_witness:
  "listdir demo_fs ''proj/locked'' = Inl ''[Errno 13] Permission denied''
   \<and> process_directory llm_call demo_fs 1 ''proj/locked'' 1 =
       Inr ([], [''    Directory: locked'',
                 ''        Error reading directory: [Errno 13] Permission denied''])
   \<and> (\<exists>calls index_lines.
         process_directory llm_call demo_fs 2 ''proj'' 0 = Inr (calls, index_lines)
         \<and> sublist [''    Directory: locked'',
                     ''        Error reading directory: [Errno 13] Permission denied''] index_lines
         \<and> sublist [''    Directory: lib''] index_lines)"
proof -
  have l: "listdir demo_fs ''proj/locked'' = Inl ''[Errno 13] Permission denied''"
    by (simp add: demo_fs_def)
  note t = unlistable_directory_reported [OF l, of llm_call]
  have bn: "basename ''proj/locked'' = ''locked''" by code_simp
  from t [of 0 1] have own: "process_directory llm_call demo_fs 1 ''proj/locked'' 1 =
       Inr ([], [''    Directory: locked'',
                 ''        Error reading directory: [Errno 13] Permission denied''])"
    by (simp add: bn)
  have lib: "process_directory llm_call demo_fs (Suc 0) ''proj/lib'' (0 + 1) =
      Inr ([direct_request ''hello''],
      [''    Directory: lib'', ''        File: b.txt'',
       ''            Summary: LLM_Summary (truncated): Please provide a concise summary of the following code:  hello...'',
       ''        File: c.bin'',
       ''            Summary: Error reading file: invalid start byte''])"
    by code_simp
  have h: "listdir demo_fs ''proj'' = Inr [''lib'', ''a.py'', ''sock'', ''locked'']
      \<and> ''locked'' \<in> set [''lib'', ''a.py'', ''sock'', ''locked'']
      \<and> join ''proj'' ''locked'' = ''proj/locked'' \<and> isdir demo_fs ''proj/locked''
      \<and> (\<forall>sub \<in> set [''lib'', ''a.py'', ''sock'', ''locked''].
            isdir demo_fs (join ''proj'' sub) \<longrightarrow>
            (\<exists>r. process_directory llm_call demo_fs (Suc 0) (join ''proj'' sub) (0 + 1) = Inr r))"
  proof -
    have e1: "\<exists>r. process_directory llm_call demo_fs (Suc 0) ''proj/lib'' (0 + 1) = Inr r"
      using lib by blast
    have e2: "\<exists>r. process_directory llm_call demo_fs (Suc 0) ''proj/locked'' (0 + 1) = Inr r"
      using t [of 0 "0 + 1"] by blast
    have ls: "listdir demo_fs ''proj'' = Inr [''lib'', ''a.py'', ''sock'', ''locked'']"
      by (simp add: demo_fs_def)
    have d: "isdir demo_fs ''proj/locked''"
      by (simp add: demo_fs_def)
    have nd: "\<not> isdir demo_fs ''proj/a.py''" "\<not> isdir demo_fs ''proj/sock''"
      by (simp_all add: demo_fs_def)
    show ?thesis
      using e1 e2 ls d nd by (simp add: demo_joins del: process_directory.simps)
  qed
  from t [of 0 0, THEN conjunct2, rule_format, OF h] obtain calls index_lines where
    pd: "process_directory llm_call demo_fs (Suc (Suc 0)) ''proj'' 0 = Inr (calls, index_lines)"
    and c: "sublist [concat (replicate (0 + 1) ''    '') @ ''Directory: ''
                       @ (if basename ''proj/locked'' \<noteq> [] then basename ''proj/locked''
                          else ''proj/locked''),
                     concat (replicate (0 + 1) ''    '')
                       @ ''    Error reading directory: '' @ ''[Errno 13] Permission denied'']
              index_lines"
    and all: "\<forall>other \<in> set [''lib'', ''a.py'', ''sock'', ''locked'']. \<exists>cs ls.
                entry_result llm_call demo_fs (Suc 0) ''proj'' 0 other = Inr (cs, ls)
                \<and> sublist cs calls \<and> sublist ls index_lines"
    by blast
  from c have c': "sublist [''    Directory: locked'',
                     ''        Error reading directory: [Errno 13] Permission denied''] index_lines"
    by (simp add: bn)
  from all obtain cs ls where
    "entry_result llm_call demo_fs (Suc 0) ''proj'' 0 ''lib'' = Inr (cs, ls)"
    "sublist ls index_lines"
    by auto
  moreover have "isdir demo_fs (join ''proj'' ''lib'')"
    by (simp add: demo_joins) (simp add: demo_fs_def)
  ultimately have "sublist ([''    Directory: lib''] @
       [''        File: b.txt'',
       ''            Summary: LLM_Summary (truncated): Please provide a concise summary of the following code:  hello...'',
       ''        File: c.bin'',
       ''            Summary: Error reading file: invalid start byte'']) index_lines"
    using lib by (simp add: entry_result_dir demo_joins)
  then have lb: "sublist [''    Directory: lib''] index_lines"
    by (rule sublist_order.order.trans [OF sublist_append_rightI])
  from pd have pd': "process_directory llm_call demo_fs 2 ''proj'' 0 = Inr (calls, index_lines)"
    by (simp add: numeral_2_eq_2)
  from l own pd' c' lb show ?thesis by blast
qed


section \<open>Order of the entries\<close>

lemma process_entries_blocks:
  assumes "process_entries llm fs depth d i entries ([], []) = Inr (calls, index_lines)"
  shows "\<exists>rs. map Inr rs = map (entry_result llm fs depth d i) entries
           \<and> calls = concat (map fst rs) \<and> index_lines = concat (map snd rs)"
  using assms
proof (induction entries arbitrary: calls index_lines)
  case Nil
  then show ?case by simp
next
  case (Cons e entries)
  from Cons.prems obtain cs ls cs' ls' where
    e: "entry_result llm fs depth d i e = Inr (cs, ls)"
    and rest: "process_entries llm fs depth d i entries ([], []) = Inr (cs', ls')"
    and c: "calls = cs @ cs'" and l: "index_lines = ls @ ls'"
    by (auto simp: process_entries_step simp del: process_entries.simps
          split: sum.splits prod.splits)
  from Cons.IH [OF rest] obtain rs where
    rs: "map Inr rs = map (entry_result llm fs depth d i) entries"
    "cs' = concat (map fst rs)" "ls' = concat (map snd rs)"
    by blast
  have "map Inr ((cs, ls) # rs) = map (entry_result llm fs depth d i) (e # entries)"
    using e rs(1) by simp
  moreover have "calls = concat (map fst ((cs, ls) # rs))"
    using c rs(2) by simp
  moreover have "index_lines = concat (map snd ((cs, ls) # rs))"
    using l rs(3) by simp
  ultimately show ?case by blast
qed

lemma summarize_file_read_text:
  "read_text fs' = read_text fs \<Longrightarrow> summarize_file llm fs' p = summarize_file llm fs p"
  by (simp add: summarize_file_def)

lemma walk_same_listing:
  assumes r: "read_text fs' = read_text fs" and d: "isdir fs' = isdir fs"
    and f: "isfile fs' = isfile fs"
    and l: "\<forall>d. (\<exists>e. listdir fs d = Inl e \<and> listdir fs' d = Inl e)
              \<or> (\<exists>xs ys. listdir fs d = Inr xs \<and> listdir fs' d = Inr ys \<and> mset ys = mset xs)"
  shows "process_directory llm fs' depth directory indent
           = process_directory llm fs depth directory indent"
proof (induction depth arbitrary: directory indent)
  case 0
  show ?case by simp
next
  case (Suc depth)
  have pe: "process_entries llm fs' depth directory indent entries acc
              = process_entries llm fs depth directory indent entries acc" for entries acc
  proof (induction entries arbitrary: acc)
    case Nil
    show ?case by simp
  next
    case (Cons e entries)
    obtain calls index_lines where acc: "acc = (calls, index_lines)" by (cases acc)
    show ?case
      unfolding acc
      by (simp add: Let_def r d f summarize_file_read_text [OF r] Suc.IH Cons.IH
               split: sum.splits prod.splits)
  qed
  from l have "(\<exists>e. listdir fs directory = Inl e \<and> listdir fs' directory = Inl e)
       \<or> (\<exists>xs ys. listdir fs directory = Inr xs \<and> listdir fs' directory = Inr ys
                    \<and> mset ys = mset xs)"
    by blast
  then show ?case
  proof (elim disjE exE conjE)
    fix e assume "listdir fs directory = Inl e" "listdir fs' directory = Inl e"
    then show ?thesis by (simp add: Let_def)
  next
    fix xs ys
    assume x: "listdir fs directory = Inr xs" and y: "listdir fs' directory = Inr ys"
      and m: "mset ys = mset xs"
    have "sort ys = sort xs"
      by (rule properties_for_sort) (simp_all add: m)
    with x y show ?thesis by (simp add: Let_def pe)
  qed
qed

text \<open>
  Claim C8.  \<open>process_directory\<close> handles the entries of a directory in sorted order of
  their names: its lines are the line announcing the directory followed by the
  contribution of each entry, the entries taken in lexicographic order.  Hence two file
  systems that hold the same tree and differ only in the order in which \<open>os.listdir\<close>
  enumerates the entries give the same result, at every directory and depth.
\<close>

theorem listing_order_irrelevant:
  assumes "read_text fs' = read_text fs" and "isdir fs' = isdir fs"
    and "isfile fs' = isfile fs"
    and "\<forall>d. (\<exists>e. listdir fs d = Inl e \<and> listdir fs' d = Inl e)
              \<or> (\<exists>xs ys. listdir fs d = Inr xs \<and> listdir fs' d = Inr ys \<and> mset ys = mset xs)"
  shows "process_directory llm fs' depth directory indent
           = process_directory llm fs depth directory indent
     \<and> (\<forall>names calls index_lines.
          listdir fs directory = Inr names
          \<and> process_directory llm fs (Suc depth) directory indent = Inr (calls, index_lines)
          \<longrightarrow> (\<exists>rs. map Inr rs = map (entry_result llm fs depth directory indent) (sort names)
                    \<and> sorted (sort names)
                    \<and> calls = concat (map fst rs)
                    \<and> index_lines =
                        (concat (replicate indent ''    '') @ ''Directory: ''
                           @ (if basename directory \<noteq> [] then basename directory else directory))
                        # concat (map snd rs)))"
proof (intro conjI allI impI)
  show "process_directory llm fs' depth directory indent
           = process_directory llm fs depth directory indent"
    using assms by (rule walk_same_listing)
next
  fix names calls index_lines
  assume h: "listdir fs directory = Inr names
          \<and> process_directory llm fs (Suc depth) directory indent = Inr (calls, index_lines)"
  from h have l: "listdir fs directory = Inr names"
    by (rule conjunct1)
  from h have pd: "process_directory llm fs (Suc depth) directory indent = Inr (calls, index_lines)"
    by (rule conjunct2)
  from pd obtain ls where
    pe: "process_entries llm fs depth directory indent (sort names) ([], []) = Inr (calls, ls)"
    and il: "index_lines =
       (concat (replicate indent ''    '') @ ''Directory: ''
          @ (if basename directory \<noteq> [] then basename directory else directory)) # ls"
    unfolding process_directory_listed [OF l] by (auto split: sum.splits prod.splits)
  from process_entries_blocks [OF pe] il
  show "\<exists>rs. map Inr rs = map (entry_result llm fs depth directory indent) (sort names)
                    \<and> sorted (sort names)
                    \<and> calls = concat (map fst rs)
                    \<and> index_lines =
                        (concat (replicate indent ''    '') @ ''Directory: ''
                           @ (if basename directory \<noteq> [] then basename directory else directory))
                        # concat (map snd rs)"
    by auto
qed

lemma demo_walk:
  "process_directory llm_call demo_fs 3 ''proj'' 0 =
     Inr ([direct_request ''x = 1'', direct_request ''hello''],
      [''Directory: proj'', ''    File: a.py'',
       ''        Summary: LLM_Summary (truncated): Please provide a concise summary of the following code:  x = 1...'',
       ''    Directory: lib'', ''        File: b.txt'',
       ''            Summary: LLM_Summary (truncated): Please provide a concise summary of the following code:  hello...'',
       ''        File: c.bin'',
       ''            Summary: Error reading file: invalid start byte'',
       ''    Directory: locked'',
       ''        Error reading directory: [Errno 13] Permission denied''])"
  by code_simp

theorem listing_order_irrelevant_witness:
  "listdir demo_fs ''proj'' = Inr [''lib'', ''a.py'', ''sock'', ''locked'']
   \<and> listdir demo_fs_reordered ''proj'' = Inr [''sock'', ''locked'', ''a.py'', ''lib'']
   \<and> read_text demo_fs_reordered = read_text demo_fs
   \<and> isdir demo_fs_reordered = isdir demo_fs
   \<and> isfile demo_fs_reordered = isfile demo_fs
   \<and> process_directory llm_call demo_fs_reordered 3 ''proj'' 0 =
     Inr ([direct_request ''x = 1'', direct_request ''hello''],
      [''Directory: proj'', ''    File: a.py'',
       ''        Summary: LLM_Summary (truncated): Please provide a concise summary of the following code:  x = 1...'',
       ''    Directory: lib'', ''        File: b.txt'',
       ''            Summary: LLM_Summary (truncated): Please provide a concise summary of the following code:  hello...'',
       ''        File: c.bin'',
       ''            Summary: Error reading file: invalid start byte'',
       ''    Directory: locked'',
       ''        Error reading directory: [Errno 13] Permission denied''])"
proof -
  have a: "read_text demo_fs_reordered = read_text demo_fs"
    "isdir demo_fs_reordered = isdir demo_fs" "isfile demo_fs_reordered = isfile demo_fs"
    by (simp_all add: demo_fs_reordered_def)
  have l: "\<forall>d. (\<exists>e. listdir demo_fs d = Inl e \<and> listdir demo_fs_reordered d = Inl e)
              \<or> (\<exists>xs ys. listdir demo_fs d = Inr xs \<and> listdir demo_fs_reordered d = Inr ys
                    \<and> mset ys = mset xs)"
    by (simp add: demo_fs_reordered_def demo_fs_def add_mset_commute)
  have l1: "listdir demo_fs ''proj'' = Inr [''lib'', ''a.py'', ''sock'', ''locked'']"
    by (simp add: demo_fs_def)
  have l2: "listdir demo_fs_reordered ''proj'' = Inr [''sock'', ''locked'', ''a.py'', ''lib'']"
    by (simp add: demo_fs_reordered_def)
  from listing_order_irrelevant [OF a l, of llm_call 3 "''proj''" 0]
  have "process_directory llm_call demo_fs_reordered 3 ''proj'' 0
      = process_directory llm_call demo_fs 3 ''proj'' 0"
    by (rule conjunct1)
  with demo_walk a l1 l2 show ?thesis by simp
qed


section \<open>The line announcing a directory\<close>

text \<open>
  Claim C9, as stated: the first line is the indentation, \<open>Directory: \<close> and the base name
  of the path.  It fails for a path that ends with a slash, whose base name is empty: the
  program then announces the path as given.
\<close>

theorem first_line_is_not_always_basename:
  "process_directory llm_call demo_fs 3 ''proj/'' 0 =
     Inr ([direct_request ''x = 1'', direct_request ''hello''],
      [''Directory: proj/'', ''    File: a.py'',
       ''        Summary: LLM_Summary (truncated): Please provide a concise summary of the following code:  x = 1...'',
       ''    Directory: lib'', ''        File: b.txt'',
       ''            Summary: LLM_Summary (truncated): Please provide a concise summary of the following code:  hello...'',
       ''        File: c.bin'',
       ''            Summary: Error reading file: invalid start byte'',
       ''    Directory: locked'',
       ''        Error reading directory: [Errno 13] Permission denied''])
   \<and> basename ''proj/'' = []
   \<and> ''Directory: proj/'' \<noteq> replicate (4 * 0) CHR '' '' @ ''Directory: '' @ basename ''proj/''"
proof -
  have b: "basename ''proj/'' = []" by code_simp
  have w: "process_directory llm_call demo_fs 3 ''proj/'' 0 =
     Inr ([direct_request ''x = 1'', direct_request ''hello''],
      [''Directory: proj/'', ''    File: a.py'',
       ''        Summary: LLM_Summary (truncated): Please provide a concise summary of the following code:  x = 1...'',
       ''    Directory: lib'', ''        File: b.txt'',
       ''            Summary: LLM_Summary (truncated): Please provide a concise summary of the following code:  hello...'',
       ''        File: c.bin'',
       ''            Summary: Error reading file: invalid start byte'',
       ''    Directory: locked'',
       ''        Error reading directory: [Errno 13] Permission denied''])"
    by code_simp
  show ?thesis unfolding b using w by simp
qed

lemma process_directory_first_line:
  assumes "process_directory llm fs depth directory indent = Inr (calls, index_lines)"
  shows "\<exists>rest. index_lines =
           (concat (replicate indent ''    '') @ ''Directory: ''
              @ (if basename directory \<noteq> [] then basename directory else directory)) # rest"
proof (cases depth)
  case 0
  with assms show ?thesis by simp
next
  case (Suc k)
  show ?thesis
  proof (cases "listdir fs directory")
    case (Inl e)
    from assms show ?thesis
      unfolding Suc process_directory_unlisted [OF Inl] by auto
  next
    case (Inr names)
    from assms show ?thesis
      unfolding Suc process_directory_listed [OF Inr]
      by (auto split: sum.splits prod.splits)
  qed
qed

text \<open>
  Claim C9, amended.  Whenever \<open>process_directory\<close> returns, its first line is
  \<open>4 * indent\<close> spaces, then \<open>Directory: \<close>, then the base name of the path (the text
  after its last slash) or, when that base name is empty, the path as given.
\<close>

theorem first_line_announces_directory:
  assumes "process_directory llm fs depth directory indent = Inr (calls, index_lines)"
  shows "index_lines \<noteq> []
     \<and> hd index_lines =
         replicate (4 * indent) CHR '' '' @ ''Directory: ''
           @ (if basename directory = [] then directory else basename directory)
     \<and> basename directory = drop (nat (rfind directory CHR ''/'' + 1)) directory"
  using process_directory_first_line [OF assms]
  by (auto simp: indent_spaces basename_def)

theorem first_line_announces_directory_witness:
  "process_directory llm_call demo_fs 1 ''proj/lib'' 1 =
     Inr ([direct_request ''hello''],
      [''    Directory: lib'', ''        File: b.txt'',
       ''            Summary: LLM_Summary (truncated): Please provide a concise summary of the following code:  hello...'',
       ''        File: c.bin'',
       ''            Summary: Error reading file: invalid start byte''])
   \<and> basename ''proj/lib'' = ''lib''
   \<and> hd [''    Directory: lib'', ''        File: b.txt'',
       ''            Summary: LLM_Summary (truncated): Please provide a concise summary of the following code:  hello...'',
       ''        File: c.bin'',
       ''            Summary: Error reading file: invalid start byte'']
      = replicate (4 * 1) CHR '' '' @ ''Directory: '' @ ''lib''"
proof -
  have b: "basename ''proj/lib'' = ''lib''" by code_simp
  from first_line_announces_directory [OF demo_lib_walk] b
  show ?thesis using demo_lib_walk by simp
qed


section \<open>Python files that hold only whitespace\<close>

lemma match_keyword_space: "is_space c \<Longrightarrow> match_keyword (c # cs) = None"
  by (auto simp: match_keyword_def is_space_def)

lemma pattern_split_whitespace:
  "list_all is_space cs \<Longrightarrow> pattern_split bol seg cs = [seg @ cs]"
  by (induction cs arbitrary: bol seg) (simp_all add: match_keyword_space)

lemma strip_whitespace:
  assumes "list_all is_space s"
  shows "strip s = []"
proof -
  from assms have e: "dropWhile is_space s = []"
    by (simp add: list_all_iff)
  show ?thesis unfolding strip_def e by simp
qed

lemma split_whitespace_python:
  assumes "lower file_extension = ''.py''" and "list_all is_space file_content"
  shows "split_into_logical_chunks file_content file_extension max_chunk_length = Inr []"
  using assms
  by (simp add: split_into_logical_chunks_def pattern_split_whitespace strip_whitespace)

text \<open>
  Claim C10.  For an extension that is \<open>.py\<close> in any letter case and a content that is
  empty or all whitespace, \<open>split_into_logical_chunks\<close> returns the empty sequence,
  whatever \<open>max_chunk_length\<close>.  So \<open>summarize_file\<close> on such a file longer than the
  threshold makes no chunk call and exactly one call, the synthesis call, whose prompt
  is the synthesis instruction followed by the empty join.
\<close>

theorem whitespace_python_file:
  assumes "lower file_extension = ''.py''" and "list_all is_space file_content"
  shows "split_into_logical_chunks file_content file_extension max_chunk_length = Inr []
     \<and> split_into_logical_chunks file_content file_extension max_chunk_length \<noteq> Inr [file_content]
     \<and> (\<forall>llm (fs :: filesystem) file_path.
          read_text fs file_path = Inr file_content
          \<and> snd (splitext file_path) = file_extension
          \<and> length file_content > DIRECT_SUMMARY_THRESHOLD
          \<longrightarrow> (\<exists>request.
                summarize_file llm fs file_path = Inr ([request], llm request)
                \<and> prompt request =
                    ''Please synthesize the following chunk summaries into one overall summary for the entire file:''
                      @ [newline, newline] @ str_join [newline] []
                \<and> str_join [newline] [] = []
                \<and> max_tokens request = 200))"
proof (intro conjI allI impI)
  show e: "split_into_logical_chunks file_content file_extension max_chunk_length = Inr []"
    for max_chunk_length
    using assms by (rule split_whitespace_python)
  show "split_into_logical_chunks file_content file_extension max_chunk_length \<noteq> Inr [file_content]"
    unfolding e by simp
  fix llm and fs :: filesystem and file_path
  assume h: "read_text fs file_path = Inr file_content
          \<and> snd (splitext file_path) = file_extension
          \<and> length file_content > DIRECT_SUMMARY_THRESHOLD"
  then have s: "split_into_logical_chunks file_content (snd (splitext file_path))
      (int DIRECT_SUMMARY_THRESHOLD) = Inr []"
    using e by simp
  from h have "summarize_file llm fs file_path =
      Inr ([synthesis_request []], llm (synthesis_request []))"
    using summarize_file_chunked_eq [OF _ _ s, of fs llm] by simp
  then show "\<exists>request.
                summarize_file llm fs file_path = Inr ([request], llm request)
                \<and> prompt request =
                    ''Please synthesize the following chunk summaries into one overall summary for the entire file:''
                      @ [newline, newline] @ str_join [newline] []
                \<and> str_join [newline] [] = []
                \<and> max_tokens request = 200"
    by (simp add: synthesis_request_def)
qed

theorem whitespace_python_file_witness:
  "lower ''.PY'' = ''.py'' \<and> list_all is_space blank_content
   \<and> read_text blank_fs ''pkg/__init__.PY'' = Inr blank_content
   \<and> snd (splitext ''pkg/__init__.PY'') = ''.PY''
   \<and> length blank_content > DIRECT_SUMMARY_THRESHOLD
   \<and> split_into_logical_chunks blank_content ''.PY'' 10000 = Inr []
   \<and> summarize_file llm_call blank_fs ''pkg/__init__.PY''
       = Inr ([synthesis_request []],
              ''LLM_Summary (truncated): Please synthesize the following chunk summaries into one overall summary fo...'')"
proof -
  have a: "lower ''.PY'' = ''.py''" by code_simp
  have b: "list_all is_space blank_content"
    by (simp add: blank_content_def list_all_iff is_space_def)
  have r: "read_text blank_fs ''pkg/__init__.PY'' = Inr blank_content"
    by (simp add: blank_fs_def)
  have x: "snd (splitext ''pkg/__init__.PY'') = ''.PY''" by code_simp
  have n: "length blank_content > DIRECT_SUMMARY_THRESHOLD"
    by (simp add: blank_content_def DIRECT_SUMMARY_THRESHOLD_def)
  note t = whitespace_python_file [OF a b]
  from t [of 10000] have s: "split_into_logical_chunks blank_content ''.PY'' 10000 = Inr []"
    by (rule conjunct1)
  from r x n have h: "read_text blank_fs ''pkg/__init__.PY'' = Inr blank_content
          \<and> snd (splitext ''pkg/__init__.PY'') = ''.PY''
          \<and> length blank_content > DIRECT_SUMMARY_THRESHOLD"
    by blast
  from t [of 10000, THEN conjunct2, THEN conjunct2, rule_format, OF h, of llm_call]
  obtain request where
    q: "summarize_file llm_call blank_fs ''pkg/__init__.PY'' = Inr ([request], llm_call request)"
    and p: "prompt request =
        ''Please synthesize the following chunk summaries into one overall summary for the entire file:''
          @ [newline, newline] @ str_join [newline] []"
    by blast
  have c: "llm_call (synthesis_request []) =
      ''LLM_Summary (truncated): Please synthesize the following chunk summaries into one overall summary fo...''"
    by code_simp
  from t [of "int DIRECT_SUMMARY_THRESHOLD"]
  have s': "split_into_logical_chunks blank_content ''.PY'' (int DIRECT_SUMMARY_THRESHOLD) = Inr []"
    by (rule conjunct1)
  from q r n s' x have "request = synthesis_request []"
    by (simp add: summarize_file_def Let_def)
  with q c have "summarize_file llm_call blank_fs ''pkg/__init__.PY''
       = Inr ([synthesis_request []],
              ''LLM_Summary (truncated): Please synthesize the following chunk summaries into one overall summary fo...'')"
    by simp
  with a b r x n s show ?thesis by blast
qed


end
